theory Spec2Isabelle
  imports Complex_Main "HOL-Library.Word"
begin

section \<open>Raster images\<close>

text \<open>
  A PIL image is a mode, a size and a raster. The raster of an image of mode L is the
  numpy array \<open>array[y, x]\<close> of unsigned bytes, the raster of an RGB (RGBA) image the
  array \<open>array[y, x, c]\<close> with three (four) bytes per pixel. An image is a record of its
  size and of the function from row \<open>y\<close> and column \<open>x\<close> to the pixel; only the pixels
  with \<open>y < height\<close> and \<open>x < width\<close> belong to the image.
\<close>

type_synonym uint8 = "8 word"
type_synonym rgb = "uint8 \<times> uint8 \<times> uint8"
type_synonym rgba = "uint8 \<times> uint8 \<times> uint8 \<times> uint8"

record 'p image =
  width :: nat
  height :: nat
  px :: "nat \<Rightarrow> nat \<Rightarrow> 'p"

definition size_of :: "'p image \<Rightarrow> nat \<times> nat" where
  "size_of im = (width im, height im)"

text \<open>An image written row by row, for concrete inputs.\<close>

definition of_rows :: "'p \<Rightarrow> 'p list list \<Rightarrow> 'p image" where
  "of_rows d rs =
     \<lparr>width = (case rs of [] \<Rightarrow> 0 | r # _ \<Rightarrow> length r), height = length rs,
      px = (\<lambda>y x. if y < length rs \<and> x < length (rs ! y) then rs ! y ! x else d)\<rparr>"

definition to_rows :: "'p image \<Rightarrow> 'p list list" where
  "to_rows im = map (\<lambda>y. map (px im y) [0..<width im]) [0..<height im]"

text \<open>The image modes the code tells apart; every other mode is \<open>Image_other\<close>.\<close>

datatype pil_image =
    Image_L "uint8 image"
  | Image_RGB "rgb image"
  | Image_RGBA "rgba image"
  | Image_other string "uint8 list image"

fun mode :: "pil_image \<Rightarrow> string" where
  "mode (Image_L _) = ''L''"
| "mode (Image_RGB _) = ''RGB''"
| "mode (Image_RGBA _) = ''RGBA''"
| "mode (Image_other m _) = m"

fun pil_size :: "pil_image \<Rightarrow> nat \<times> nat" where
  "pil_size (Image_L im) = size_of im"
| "pil_size (Image_RGB im) = size_of im"
| "pil_size (Image_RGBA im) = size_of im"
| "pil_size (Image_other _ im) = size_of im"

datatype error =
    FileNotFoundError string
  | ValueError string
  | KeyError string
  | LibraryError string

section \<open>The imaging library\<close>

text \<open>
  Resampling, Gaussian blur and mode conversion are Pillow's; the code calls them and
  does not define them. They are parameters of the model: each gives the raster of the
  result, and the model adds what Pillow documents of the result's size and of the
  arguments it refuses. A call that can raise returns \<open>Inl\<close>.
\<close>

record pil =
  gaussian_blur :: "real \<Rightarrow> uint8 image \<Rightarrow> error + (nat \<Rightarrow> nat \<Rightarrow> uint8)"
  lanczos_L :: "nat \<times> nat \<Rightarrow> uint8 image \<Rightarrow> nat \<Rightarrow> nat \<Rightarrow> uint8"
  lanczos_RGB :: "nat \<times> nat \<Rightarrow> rgb image \<Rightarrow> nat \<Rightarrow> nat \<Rightarrow> rgb"
  to_RGB :: "pil_image \<Rightarrow> nat \<Rightarrow> nat \<Rightarrow> rgb"
  to_RGBA :: "pil_image \<Rightarrow> nat \<Rightarrow> nat \<Rightarrow> rgba"
  scipy_available :: bool

text \<open>\<open>image.filter(ImageFilter.GaussianBlur(radius))\<close>: an image of the same size.\<close>

definition filter_GaussianBlur :: "pil \<Rightarrow> real \<Rightarrow> uint8 image \<Rightarrow> error + uint8 image" where
  "filter_GaussianBlur lib radius im =
     (case gaussian_blur lib radius im of
        Inl e \<Rightarrow> Inl e
      | Inr p \<Rightarrow> Inr (im\<lparr>px := p\<rparr>))"

text \<open>
  \<open>image.resize(size, Image.LANCZOS)\<close>: a copy of the image when it has the size asked
  for already; otherwise Pillow raises \<open>ValueError\<close> when the width or the height asked
  for is below 1, and returns the resampled image of the size asked for when it is not.
\<close>

definition resize_L :: "pil \<Rightarrow> uint8 image \<Rightarrow> nat \<times> nat \<Rightarrow> error + uint8 image" where
  "resize_L lib im sz =
     (if size_of im = sz then Inr im
      else if fst sz < 1 \<or> snd sz < 1 then Inl (ValueError ''height and width must be > 0'')
      else Inr \<lparr>width = fst sz, height = snd sz, px = lanczos_L lib sz im\<rparr>)"

definition resize_RGB :: "pil \<Rightarrow> rgb image \<Rightarrow> nat \<times> nat \<Rightarrow> error + rgb image" where
  "resize_RGB lib im sz =
     (if size_of im = sz then Inr im
      else if fst sz < 1 \<or> snd sz < 1 then Inl (ValueError ''height and width must be > 0'')
      else Inr \<lparr>width = fst sz, height = snd sz, px = lanczos_RGB lib sz im\<rparr>)"

text \<open>What \<open>resize\<close> returns when it returns.\<close>

definition resized ::
  "(nat \<times> nat \<Rightarrow> 'p image \<Rightarrow> nat \<Rightarrow> nat \<Rightarrow> 'p) \<Rightarrow> 'p image \<Rightarrow> nat \<times> nat \<Rightarrow> 'p image" where
  "resized f im sz =
     (if size_of im = sz then im else \<lparr>width = fst sz, height = snd sz, px = f sz im\<rparr>)"

text \<open>
  \<open>image.convert('RGB')\<close> and \<open>image.convert('RGBA')\<close>: same size, new mode; an
  image that has the mode already is copied.
\<close>

definition convert_RGB :: "pil \<Rightarrow> pil_image \<Rightarrow> rgb image" where
  "convert_RGB lib im =
     (case im of
        Image_RGB r \<Rightarrow> r
      | _ \<Rightarrow> \<lparr>width = fst (pil_size im), height = snd (pil_size im), px = to_RGB lib im\<rparr>)"

definition convert_RGBA :: "pil \<Rightarrow> pil_image \<Rightarrow> rgba image" where
  "convert_RGBA lib im =
     (case im of
        Image_RGBA r \<Rightarrow> r
      | _ \<Rightarrow> \<lparr>width = fst (pil_size im), height = snd (pil_size im), px = to_RGBA lib im\<rparr>)"

text \<open>\<open>ImageOps.invert\<close> on an L image: every byte \<open>v\<close> becomes \<open>255 - v\<close>.\<close>

definition invert :: "uint8 image \<Rightarrow> uint8 image" where
  "invert im = im\<lparr>px := \<lambda>y x. 255 - px im y x\<rparr>"

text \<open>
  The maximum over a square window of \<open>size\<close> by \<open>size\<close> pixels centred on each pixel.
  \<open>border n i\<close> is the index inside \<open>0..<n\<close> that stands for index \<open>i\<close> of the extended
  array: scipy's \<open>maximum_filter\<close> extends by reflection about the edge (its default
  mode), Pillow's \<open>MaxFilter\<close> by repeating the edge pixel.
\<close>

definition reflect :: "nat \<Rightarrow> int \<Rightarrow> nat" where
  "reflect n i =
     (let k = nat (i mod (2 * int n))
      in if k < n then k else 2 * n - 1 - k)"

definition nearest :: "nat \<Rightarrow> int \<Rightarrow> nat" where
  "nearest n i = (if i < 0 then 0 else if int n \<le> i then n - 1 else nat i)"

definition window :: "int \<Rightarrow> (int \<times> int) list" where
  "window sz = (let lo = - (sz div 2); hi = lo + sz - 1 in List.product [lo..hi] [lo..hi])"

definition max_window :: "(nat \<Rightarrow> int \<Rightarrow> nat) \<Rightarrow> int \<Rightarrow> uint8 image \<Rightarrow> uint8 image" where
  "max_window border sz im =
     im\<lparr>px := \<lambda>y x. Max (set (map
        (\<lambda>(dy, dx). px im (border (height im) (int y + dy)) (border (width im) (int x + dx)))
        (window sz)))\<rparr>"

definition maximum_filter :: "uint8 image \<Rightarrow> int \<Rightarrow> uint8 image" where
  "maximum_filter im sz = max_window reflect sz im"

definition filter_MaxFilter :: "uint8 image \<Rightarrow> int \<Rightarrow> uint8 image" where
  "filter_MaxFilter im sz = max_window nearest sz im"

section \<open>Configuration\<close>

text \<open>
  The configuration is a dictionary of dictionaries read with \<open>.get(key, default)\<close>: a
  key that is absent is \<open>None\<close>, and \<open>get_or\<close> supplies the default.
\<close>

record config =
  cfg_expand_mask :: "int option"
  cfg_feather_pixels :: "real option"
  cfg_blur_amount :: "real option"
  cfg_edge_refinement :: "bool option"
  cfg_shadow_generation :: "bool option"
  cfg_color_matching :: "bool option"
  cfg_shadow_opacity :: "real option"
  cfg_shadow_blur :: "real option"
  cfg_max_dimension :: "nat option"
  cfg_show_stages :: "bool option"
  cfg_output_dir :: "string option"

definition get_or :: "'a option \<Rightarrow> 'a \<Rightarrow> 'a" where
  "get_or v d = (case v of None \<Rightarrow> d | Some x \<Rightarrow> x)"

definition default_config :: config where
  "default_config =
     \<lparr>cfg_expand_mask = None, cfg_feather_pixels = None, cfg_blur_amount = None,
      cfg_edge_refinement = None, cfg_shadow_generation = None, cfg_color_matching = None,
      cfg_shadow_opacity = None, cfg_shadow_blur = None, cfg_max_dimension = None,
      cfg_show_stages = None, cfg_output_dir = Some ''output''\<rparr>"

section \<open>modules/mask\_processor.py\<close>

definition expand_mask :: "pil \<Rightarrow> uint8 image \<Rightarrow> int \<Rightarrow> uint8 image" where
  "expand_mask lib msk pixels =
     (if pixels \<le> 0 then msk
      else if scipy_available lib then maximum_filter msk (pixels * 2 + 1)
      else filter_MaxFilter msk (pixels * 2 + 1))"

definition feather_edges :: "pil \<Rightarrow> uint8 image \<Rightarrow> real \<Rightarrow> error + uint8 image" where
  "feather_edges lib msk pixels =
     (if pixels \<le> 0 then Inr msk else filter_GaussianBlur lib pixels msk)"

definition prepare_inpainting_mask :: "pil \<Rightarrow> config \<Rightarrow> uint8 image \<Rightarrow> error + uint8 image" where
  "prepare_inpainting_mask lib cfg msk =
     (let expanded = expand_mask lib msk (get_or (cfg_expand_mask cfg) 10)
      in case feather_edges lib expanded (get_or (cfg_feather_pixels cfg) 3) of
           Inl e \<Rightarrow> Inl e
         | Inr feathered \<Rightarrow> Inr (invert feathered))"

definition prepare_compositing_mask :: "pil \<Rightarrow> config \<Rightarrow> uint8 image \<Rightarrow> error + uint8 image" where
  "prepare_compositing_mask lib cfg msk =
     filter_GaussianBlur lib (get_or (cfg_blur_amount cfg) 5) msk"

definition process_mask :: "pil \<Rightarrow> config \<Rightarrow> uint8 image \<Rightarrow> string \<Rightarrow> error + uint8 image" where
  "process_mask lib cfg msk operation =
     (if operation = ''for_inpainting'' then prepare_inpainting_mask lib cfg msk
      else if operation = ''for_compositing'' then prepare_compositing_mask lib cfg msk
      else Inr msk)"

definition refine_mask :: "uint8 image \<Rightarrow> int \<Rightarrow> uint8 image" where
  "refine_mask msk threshold =
     msk\<lparr>px := \<lambda>y x. (if threshold < uint (px msk y x) then 1 else 0) * 255\<rparr>"

section \<open>float64 arithmetic\<close>

text \<open>
  Python floats and numpy's float arrays are IEEE-754 binary64: each operation returns
  the exact result rounded to the nearest representable number. The rounding is the
  parameter \<open>fl\<close> of the functions that compute with floats, and \<open>rounds fl\<close> states
  the properties of round-to-nearest that the proofs use: rounding is monotone, it keeps
  the integers up to \<open>2 ^ 53\<close>, and it raises a number of \<open>[0, 1]\<close> by at most
  \<open>1 / 2 ^ 53\<close> and a number of \<open>[0, 2 ^ 52]\<close> by at most \<open>1 / 4\<close>. The identity (exact
  arithmetic) is one such rounding.
\<close>

definition rounds :: "(real \<Rightarrow> real) \<Rightarrow> bool" where
  "rounds fl \<longleftrightarrow>
     mono fl \<and>
     (\<forall>n::nat. n \<le> 2 ^ 53 \<longrightarrow> fl (real n) = real n) \<and>
     (\<forall>x. 0 \<le> x \<and> x \<le> 1 \<longrightarrow> fl x \<le> x + 1 / 2 ^ 53) \<and>
     (\<forall>x. 0 \<le> x \<and> x \<le> 2 ^ 52 \<longrightarrow> fl x \<le> x + 1 / 4)"

text \<open>\<open>int(x)\<close> of a float truncates towards zero.\<close>

definition python_int :: "real \<Rightarrow> int" where
  "python_int x = (if 0 \<le> x then \<lfloor>x\<rfloor> else \<lceil>x\<rceil>)"

text \<open>
  \<open>array.astype(np.uint8)\<close> of a float array is C's conversion: the fraction is dropped.
  C leaves the result for a value outside \<open>0..255\<close> undefined; numpy on x86-64 converts
  through a signed 32-bit integer, so a value whose integer part fits 32 bits wraps
  modulo 256 and every other value gives 0.
\<close>

definition astype_uint8 :: "real \<Rightarrow> uint8" where
  "astype_uint8 x =
     (let k = python_int x
      in if - (2 ^ 31) \<le> k \<and> k < 2 ^ 31 then word_of_int k else 0)"

section \<open>Pasting through a mask\<close>

text \<open>
  \<open>Image.new(mode, size, color)\<close>, \<open>image.split()[3]\<close> of an RGBA image, and Pillow's
  paste of an image through a mask of mode L, which sets every channel to
  \<open>(old * (255 - mask) + new * mask) / 255\<close> rounded to the nearest byte by shifts
  (the macros \<open>DIV255\<close> and \<open>BLEND\<close>). A paste needs a mask of the size of the pasted
  image and changes the pixels of the destination that the pasted image covers.
\<close>

definition new_image :: "nat \<times> nat \<Rightarrow> 'p \<Rightarrow> 'p image" where
  "new_image sz color = \<lparr>width = fst sz, height = snd sz, px = (\<lambda>y x. color)\<rparr>"

definition alpha_band :: "rgba image \<Rightarrow> uint8 image" where
  "alpha_band im =
     \<lparr>width = width im, height = height im, px = (\<lambda>y x. case px im y x of (r, g, b, a) \<Rightarrow> a)\<rparr>"

definition drop_alpha :: "rgba \<Rightarrow> rgb" where
  "drop_alpha p = (case p of (r, g, b, a) \<Rightarrow> (r, g, b))"

definition div255 :: "nat \<Rightarrow> nat" where
  "div255 a = (let tmp = a + 128 in (tmp div 256 + tmp) div 256)"

definition blend :: "uint8 \<Rightarrow> uint8 \<Rightarrow> uint8 \<Rightarrow> uint8" where
  "blend m in1 in2 = of_nat (div255 (unat in1 * (255 - unat m) + unat in2 * unat m))"

definition blend_rgb :: "uint8 \<Rightarrow> rgb \<Rightarrow> rgb \<Rightarrow> rgb" where
  "blend_rgb m p1 p2 =
     (case p1 of (r1, g1, b1) \<Rightarrow> case p2 of (r2, g2, b2) \<Rightarrow>
        (blend m r1 r2, blend m g1 g2, blend m b1 b2))"

definition paste :: "rgb image \<Rightarrow> rgb image \<Rightarrow> uint8 image \<Rightarrow> error + rgb image" where
  "paste dest im msk =
     (if size_of msk \<noteq> size_of im then Inl (ValueError ''images do not match'')
      else Inr (dest\<lparr>px := \<lambda>y x.
        if y < height im \<and> x < width im
        then blend_rgb (px msk y x) (px dest y x) (px im y x)
        else px dest y x\<rparr>))"

text \<open>
  Pasting an RGBA image into an RGB image pastes its three colour channels.
\<close>

definition paste_RGBA :: "rgb image \<Rightarrow> rgba image \<Rightarrow> uint8 image \<Rightarrow> error + rgb image" where
  "paste_RGBA dest im msk =
     paste dest \<lparr>width = width im, height = height im, px = (\<lambda>y x. drop_alpha (px im y x))\<rparr> msk"

text \<open>\<open>Image.composite(image1, image2, mask)\<close>: a copy of \<open>image2\<close> with \<open>image1\<close> pasted
  through \<open>mask\<close>.\<close>

definition Image_composite :: "rgb image \<Rightarrow> rgb image \<Rightarrow> uint8 image \<Rightarrow> error + rgb image" where
  "Image_composite image1 image2 msk = paste image2 image1 msk"

section \<open>modules/compositing\_engine.py\<close>

definition refine_edges :: "pil \<Rightarrow> uint8 image \<Rightarrow> uint8 image" where
  "refine_edges lib msk =
     (case filter_GaussianBlur lib 1 msk of
        Inl e \<Rightarrow> msk
      | Inr refined \<Rightarrow> refined)"

text \<open>
  \<open>shadow_shifted = np.zeros_like(a); shadow_shifted[n:, :] = a[:-n, :]\<close>: row \<open>y\<close> of the
  result is row \<open>y - n\<close> of \<open>a\<close>, and the first \<open>n\<close> rows are zero (all rows, when the
  array has at most \<open>n\<close>).
\<close>

definition shift_down :: "nat \<Rightarrow> uint8 image \<Rightarrow> uint8 image" where
  "shift_down n a = a\<lparr>px := \<lambda>y x. if y < n then 0 else px a (y - n) x\<rparr>"

text \<open>
  \<open>bg_array * shadow_factor\<close> multiplies an array of shape \<open>(h, w, 3)\<close> with one of shape
  \<open>(h', w', 1)\<close>. numpy broadcasts: along an axis the lengths must be equal or one of
  them 1, and the operand of length 1 is repeated; other shapes raise.
\<close>

definition broadcastable :: "nat \<Rightarrow> nat \<Rightarrow> bool" where
  "broadcastable n m \<longleftrightarrow> n = m \<or> n = 1 \<or> m = 1"

definition broadcast_len :: "nat \<Rightarrow> nat \<Rightarrow> nat" where
  "broadcast_len n m = (if n = 1 then m else n)"

definition broadcast_idx :: "nat \<Rightarrow> nat \<Rightarrow> nat" where
  "broadcast_idx n i = (if n = 1 then 0 else i)"

definition map_rgb :: "(uint8 \<Rightarrow> uint8) \<Rightarrow> rgb \<Rightarrow> rgb" where
  "map_rgb f p = (case p of (r, g, b) \<Rightarrow> (f r, f g, f b))"

definition shadow_factor :: "(real \<Rightarrow> real) \<Rightarrow> real \<Rightarrow> uint8 \<Rightarrow> real" where
  "shadow_factor fl shadow_opacity s =
     fl (1 - fl (fl (real (unat s) / 255) * shadow_opacity))"

definition darken :: "(real \<Rightarrow> real) \<Rightarrow> real \<Rightarrow> rgb image \<Rightarrow> uint8 image \<Rightarrow> rgb image" where
  "darken fl shadow_opacity background shadow_mask =
     \<lparr>width = broadcast_len (width background) (width shadow_mask),
      height = broadcast_len (height background) (height shadow_mask),
      px = (\<lambda>y x.
        let f = shadow_factor fl shadow_opacity
              (px shadow_mask (broadcast_idx (height shadow_mask) y)
                 (broadcast_idx (width shadow_mask) x))
        in map_rgb (\<lambda>b. astype_uint8 (fl (real (unat b) * f)))
             (px background (broadcast_idx (height background) y)
                (broadcast_idx (width background) x)))\<rparr>"

definition add_shadow :: "(real \<Rightarrow> real) \<Rightarrow> pil \<Rightarrow> config \<Rightarrow> rgb image \<Rightarrow> uint8 image \<Rightarrow> rgb image" where
  "add_shadow fl lib cfg background msk =
     (let shadow_opacity = get_or (cfg_shadow_opacity cfg) (fl (3 / 10));
          shadow_blur = get_or (cfg_shadow_blur cfg) 15;
          shift_pixels = 20;
          shadow_shifted = shift_down shift_pixels msk
      in case filter_GaussianBlur lib shadow_blur shadow_shifted of
           Inl e \<Rightarrow> background
         | Inr shadow_mask \<Rightarrow>
             if broadcastable (height background) (height shadow_mask) \<and>
                broadcastable (width background) (width shadow_mask)
             then darken fl shadow_opacity background shadow_mask
             else background)"

definition match_colors :: "rgb image \<Rightarrow> rgb image \<Rightarrow> uint8 image \<Rightarrow> rgb image" where
  "match_colors composited foreground msk = composited"

definition foreground_rgb :: "rgba image \<Rightarrow> error + rgb image" where
  "foreground_rgb foreground_rgba =
     paste_RGBA (new_image (size_of foreground_rgba) (0, 0, 0)) foreground_rgba
       (alpha_band foreground_rgba)"

definition bind :: "error + 'a \<Rightarrow> ('a \<Rightarrow> error + 'b) \<Rightarrow> error + 'b" where
  "bind r f = (case r of Inl e \<Rightarrow> Inl e | Inr v \<Rightarrow> f v)"

definition composite ::
  "(real \<Rightarrow> real) \<Rightarrow> pil \<Rightarrow> config \<Rightarrow> pil_image \<Rightarrow> pil_image \<Rightarrow> uint8 image option
     \<Rightarrow> error + rgb image" where
  "composite fl lib cfg foreground background msk =
     (let foreground_rgba =
            (case foreground of Image_RGBA im \<Rightarrow> im | _ \<Rightarrow> convert_RGBA lib foreground);
          background_rgb =
            (case background of Image_RGB im \<Rightarrow> im | _ \<Rightarrow> convert_RGB lib background)
      in bind (if size_of foreground_rgba \<noteq> size_of background_rgb
               then resize_RGB lib background_rgb (size_of foreground_rgba)
               else Inr background_rgb) (\<lambda>background_rgb.
         bind (case msk of
                 None \<Rightarrow> Inr (alpha_band foreground_rgba)
               | Some m \<Rightarrow>
                   if size_of m \<noteq> size_of foreground_rgba
                   then resize_L lib m (size_of foreground_rgba)
                   else Inr m) (\<lambda>msk.
         let msk = (if get_or (cfg_edge_refinement cfg) True
                    then refine_edges lib msk else msk);
             background_rgb = (if get_or (cfg_shadow_generation cfg) True
                               then add_shadow fl lib cfg background_rgb msk
                               else background_rgb)
         in bind (foreground_rgb foreground_rgba) (\<lambda>foreground_rgb.
            bind (Image_composite foreground_rgb background_rgb msk) (\<lambda>composited.
              Inr (if get_or (cfg_color_matching cfg) True
                   then match_colors composited foreground_rgb msk
                   else composited))))))"

section \<open>modules/image\_loader.py\<close>

text \<open>
  The files the loader reads: whether a path exists, what \<open>Image.open\<close> gives for it,
  and pathlib's \<open>Path(p).stem\<close>.
\<close>

record files =
  path_exists :: "string \<Rightarrow> bool"
  image_open :: "string \<Rightarrow> error + pil_image"
  stem :: "string \<Rightarrow> string"

definition resize_if_needed ::
  "(real \<Rightarrow> real) \<Rightarrow> pil \<Rightarrow> config \<Rightarrow> rgb image \<Rightarrow> error + rgb image" where
  "resize_if_needed fl lib cfg im =
     (let max_dimension = get_or (cfg_max_dimension cfg) 2048;
          max_dim = max (width im) (height im)
      in if max_dim > max_dimension
         then let scale = fl (real max_dimension / real max_dim);
                  new_width = python_int (fl (real (width im) * scale));
                  new_height = python_int (fl (real (height im) * scale))
              in if new_width < 0 \<or> new_height < 0
                 then Inl (ValueError ''height and width must be > 0'')
                 else resize_RGB lib im (nat new_width, nat new_height)
         else Inr im)"

definition load_image ::
  "(real \<Rightarrow> real) \<Rightarrow> pil \<Rightarrow> files \<Rightarrow> config \<Rightarrow> string \<Rightarrow> error + pil_image" where
  "load_image fl lib fs cfg image_path =
     (if \<not> path_exists fs image_path then Inl (FileNotFoundError image_path)
      else bind (image_open fs image_path) (\<lambda>opened.
        bind (case opened of
                Image_RGB im \<Rightarrow> Inr im
              | Image_RGBA im \<Rightarrow>
                  paste_RGBA (new_image (size_of im) (255, 255, 255)) im (alpha_band im)
              | _ \<Rightarrow> Inr (convert_RGB lib opened)) (\<lambda>im.
        bind (resize_if_needed fl lib cfg im) (\<lambda>im. Inr (Image_RGB im)))))"

section \<open>modules/foreground\_extractor.py\<close>

text \<open>
  \<open>remove\<close> is rembg's segmentation model. \<open>extract_foreground\<close> returns the dictionary
  with the keys \<open>foreground\<close>, \<open>mask\<close> and \<open>original\<close>, here a triple.
\<close>

definition extract_foreground ::
  "pil \<Rightarrow> (rgb image \<Rightarrow> error + pil_image) \<Rightarrow> pil_image
     \<Rightarrow> error + (rgba image \<times> uint8 image \<times> rgb image)" where
  "extract_foreground lib remove im =
     (let original_rgb = convert_RGB lib im
      in bind (remove original_rgb) (\<lambda>removed.
           let foreground_rgba =
                 (case removed of Image_RGBA r \<Rightarrow> r | _ \<Rightarrow> convert_RGBA lib removed);
               msk = alpha_band foreground_rgba
           in Inr (foreground_rgba, msk, original_rgb)))"

text \<open>
  Pillow's \<open>image.getbbox()\<close>: the bounding box \<open>(left, upper, right, lower)\<close> of the
  non-zero pixels, \<open>right\<close> and \<open>lower\<close> one past the last non-zero column and row, or
  \<open>None\<close> when no pixel is non-zero.
\<close>

definition nonzero :: "uint8 image \<Rightarrow> (nat \<times> nat) list" where
  "nonzero im =
     concat (map (\<lambda>y. map (\<lambda>x. (x, y)) (filter (\<lambda>x. px im y x \<noteq> 0) [0..<width im]))
       [0..<height im])"

definition getbbox :: "uint8 image \<Rightarrow> (int \<times> int \<times> int \<times> int) option" where
  "getbbox im =
     (let pts = nonzero im
      in if pts = [] then None
         else Some (int (Min (set (map fst pts))), int (Min (set (map snd pts))),
                    int (Max (set (map fst pts))) + 1, int (Max (set (map snd pts))) + 1))"

definition get_bounding_box :: "uint8 image \<Rightarrow> (int \<times> int \<times> int \<times> int) option" where
  "get_bounding_box msk =
     (case getbbox msk of
        Some (x, y, right, lower) \<Rightarrow>
          (let w = right - x; h = lower - y in Some (x, y, w, h))
      | None \<Rightarrow> None)"

section \<open>methods/method1\_controlnet\_inpaint.py and methods/method2\_nanobanana\_composite.py\<close>

text \<open>
  The pretrained models and the hosted API that the two methods call, and the writing of
  files: parameters of the model, each of which can raise.
\<close>

record models =
  remove :: "rgb image \<Rightarrow> error + pil_image"
  generate_for_method1 :: "pil_image \<Rightarrow> error + string \<times> string"
  generate_for_method2 :: "pil_image \<Rightarrow> error + string"
  build_controlnet_prompt :: "string \<Rightarrow> string \<Rightarrow> string option \<Rightarrow> string \<Rightarrow> error + string"
  build_background_prompt :: "string \<Rightarrow> string option \<Rightarrow> string list option \<Rightarrow> error + string"
  inpaint_background :: "pil_image \<Rightarrow> uint8 image \<Rightarrow> string \<Rightarrow> error + pil_image"
  generate_background :: "string \<Rightarrow> nat \<Rightarrow> nat \<Rightarrow> error + pil_image"
  save_image :: "pil_image \<Rightarrow> string \<Rightarrow> error + string"

text \<open>
  A run of \<open>generate\<close> is the list of the calls it makes, each with its arguments, and
  what it returns or raises. \<open>stage c r k\<close> makes the call \<open>c\<close> with the result \<open>r\<close>:
  an exception ends the run, a value is passed on to the rest \<open>k\<close> of the run.
\<close>

datatype call =
    Load_image string
  | Extract_foreground pil_image
  | Process_mask "uint8 image" string
  | Generate_for_method1 pil_image
  | Build_controlnet_prompt string string
  | Generate_for_method2 pil_image
  | Build_background_prompt string
  | Inpaint_background pil_image "uint8 image" string
  | Generate_background string nat nat
  | Composite "rgba image" pil_image "uint8 image"
  | Save_image pil_image string
  | Visualize_pipeline string

type_synonym 'a run = "call list \<times> (error + 'a)"

definition stage :: "call \<Rightarrow> error + 'a \<Rightarrow> ('a \<Rightarrow> 'b run) \<Rightarrow> 'b run" where
  "stage c r k =
     (case r of
        Inl e \<Rightarrow> ([c], Inl e)
      | Inr v \<Rightarrow> (case k v of (cs, res) \<Rightarrow> (c # cs, res)))"

definition default_output_path :: "files \<Rightarrow> config \<Rightarrow> string \<Rightarrow> string \<Rightarrow> error + string" where
  "default_output_path fs cfg input_image_path suffix =
     (case cfg_output_dir cfg of
        None \<Rightarrow> Inl (KeyError ''output_dir'')
      | Some output_dir \<Rightarrow> Inr (output_dir @ ''/'' @ stem fs input_image_path @ suffix))"

definition visualize :: "config \<Rightarrow> files \<Rightarrow> string \<Rightarrow> string \<Rightarrow> string run" where
  "visualize cfg fs input_image_path saved_path =
     (if get_or (cfg_show_stages cfg) True
      then ([Visualize_pipeline (stem fs input_image_path)], Inr saved_path)
      else ([], Inr saved_path))"

definition method1_generate ::
  "(real \<Rightarrow> real) \<Rightarrow> pil \<Rightarrow> files \<Rightarrow> models \<Rightarrow> config \<Rightarrow> string \<Rightarrow> string option
     \<Rightarrow> string option \<Rightarrow> string option \<Rightarrow> string option \<Rightarrow> string run" where
  "method1_generate fl lib fs ms cfg input_image_path prompt product_description
       style_preset output_path =
     stage (Load_image input_image_path)
       (load_image fl lib fs cfg input_image_path) (\<lambda>original_image.
     stage (Extract_foreground original_image)
       (extract_foreground lib (remove ms) original_image) (\<lambda>(foreground_rgba, msk, original).
     stage (Process_mask msk ''for_inpainting'')
       (process_mask lib cfg msk ''for_inpainting'') (\<lambda>inpaint_mask.
     (\<lambda>k. case (prompt, product_description) of
             (Some p, Some d) \<Rightarrow>
               stage (Build_controlnet_prompt p d)
                 (build_controlnet_prompt ms p d style_preset input_image_path) k
           | _ \<Rightarrow>
               stage (Generate_for_method1 original_image)
                 (generate_for_method1 ms original_image) (\<lambda>(auto_prompt, analysis).
                    case prompt of
                      None \<Rightarrow> k auto_prompt
                    | Some p \<Rightarrow>
                        stage (Build_controlnet_prompt p analysis)
                          (build_controlnet_prompt ms p analysis style_preset input_image_path)
                          k))
     (\<lambda>final_prompt.
     stage (Inpaint_background original_image inpaint_mask final_prompt)
       (inpaint_background ms original_image inpaint_mask final_prompt) (\<lambda>result_image.
     case (case output_path of
             None \<Rightarrow> default_output_path fs cfg input_image_path ''_method1_result.png''
           | Some p \<Rightarrow> Inr p) of
       Inl e \<Rightarrow> ([], Inl e)
     | Inr output_path \<Rightarrow>
         stage (Save_image result_image output_path)
           (save_image ms result_image output_path) (\<lambda>saved_path.
         visualize cfg fs input_image_path saved_path))))))"

definition method2_generate ::
  "(real \<Rightarrow> real) \<Rightarrow> pil \<Rightarrow> files \<Rightarrow> models \<Rightarrow> config \<Rightarrow> string \<Rightarrow> string option
     \<Rightarrow> string option \<Rightarrow> string list option \<Rightarrow> string option \<Rightarrow> string run" where
  "method2_generate fl lib fs ms cfg input_image_path prompt style_preset color_palette
       output_path =
     stage (Load_image input_image_path)
       (load_image fl lib fs cfg input_image_path) (\<lambda>original_image.
     case pil_size original_image of (w, h) \<Rightarrow>
     stage (Extract_foreground original_image)
       (extract_foreground lib (remove ms) original_image) (\<lambda>(foreground_rgba, msk, original).
     stage (Process_mask msk ''for_compositing'')
       (process_mask lib cfg msk ''for_compositing'') (\<lambda>composite_mask.
     (\<lambda>k. case prompt of
             None \<Rightarrow>
               stage (Generate_for_method2 original_image)
                 (generate_for_method2 ms original_image) k
           | Some p \<Rightarrow>
               stage (Build_background_prompt p)
                 (build_background_prompt ms p style_preset color_palette) k)
     (\<lambda>background_prompt.
     stage (Generate_background background_prompt w h)
       (generate_background ms background_prompt w h) (\<lambda>background_image.
     stage (Composite foreground_rgba background_image composite_mask)
       (composite fl lib cfg (Image_RGBA foreground_rgba) background_image
          (Some composite_mask)) (\<lambda>result_image.
     case (case output_path of
             None \<Rightarrow> default_output_path fs cfg input_image_path ''_method2_result.png''
           | Some p \<Rightarrow> Inr p) of
       Inl e \<Rightarrow> ([], Inl e)
     | Inr output_path \<Rightarrow>
         stage (Save_image (Image_RGB result_image) output_path)
           (save_image ms (Image_RGB result_image) output_path) (\<lambda>saved_path.
         visualize cfg fs input_image_path saved_path)))))))"

section \<open>A small instance\<close>

text \<open>
  An instance of the library, the files and the models on which the definitions compute:
  the blur returns its input, resampling takes the nearest pixel, and the conversions
  copy or repeat the channels.
\<close>

definition toy_pil :: pil where
  "toy_pil =
     \<lparr>gaussian_blur = (\<lambda>r im. Inr (px im)),
      lanczos_L = (\<lambda>sz im y x. px im (y * height im div snd sz) (x * width im div fst sz)),
      lanczos_RGB = (\<lambda>sz im y x. px im (y * height im div snd sz) (x * width im div fst sz)),
      to_RGB = (\<lambda>im y x. case im of
                  Image_L g \<Rightarrow> (px g y x, px g y x, px g y x)
                | Image_RGB c \<Rightarrow> px c y x
                | Image_RGBA c \<Rightarrow> drop_alpha (px c y x)
                | Image_other _ b \<Rightarrow> (0, 0, 0)),
      to_RGBA = (\<lambda>im y x. case im of
                  Image_L g \<Rightarrow> (px g y x, px g y x, px g y x, 255)
                | Image_RGB c \<Rightarrow> (case px c y x of (r, g, b) \<Rightarrow> (r, g, b, 255))
                | Image_RGBA c \<Rightarrow> px c y x
                | Image_other _ b \<Rightarrow> (0, 0, 0, 255)),
      scipy_available = True\<rparr>"

definition toy_mask :: "uint8 image" where
  "toy_mask = of_rows 0 [[0, 200], [90, 0]]"

definition toy_dot :: "uint8 image" where
  "toy_dot = of_rows 0 [[0, 0, 0], [0, 0, 7], [0, 0, 0]]"

text \<open>Channel by channel, a pixel is at most another.\<close>

definition rgb_le :: "rgb \<Rightarrow> rgb \<Rightarrow> bool" where
  "rgb_le p q =
     (case p of (r, g, b) \<Rightarrow> case q of (r', g', b') \<Rightarrow> r \<le> r' \<and> g \<le> g' \<and> b \<le> b')"

definition toy_background :: "rgb image" where
  "toy_background = new_image (1, 21) (200, 100, 50)"

definition toy_tall_mask :: "uint8 image" where
  "toy_tall_mask = new_image (1, 21) 255"

definition toy_foreground :: "rgba image" where
  "toy_foreground = of_rows (0, 0, 0, 0) [[(250, 10, 10, 255), (0, 0, 0, 0)]]"

definition toy_scene :: "rgb image" where
  "toy_scene = new_image (4, 2) (10, 20, 30)"

text \<open>
  A second library whose blur is not the identity: a pixel becomes the mean of its half
  and of the half of the pixel above it (nothing above the first row).
\<close>

definition toy_pil_blur :: pil where
  "toy_pil_blur =
     toy_pil\<lparr>gaussian_blur :=
       (\<lambda>r im. Inr (\<lambda>y x. px im y x div 2 + (if y = 0 then 0 else px im (y - 1) x div 2)))\<rparr>"

definition toy_product :: "rgba image" where
  "toy_product = new_image (2, 22) (250, 10, 10, 128)"

definition toy_product_mask :: "uint8 image" where
  "toy_product_mask = new_image (2, 22) 100"

definition toy_empty :: "rgba image" where
  "toy_empty = new_image (0, 0) (0, 0, 0, 0)"

definition toy_thin :: "rgb image" where
  "toy_thin = new_image (4096, 1) (10, 20, 30)"

definition toy_files :: files where
  "toy_files =
     \<lparr>path_exists = (\<lambda>p. p = ''in.png'' \<or> p = ''scene.png'' \<or> p = ''thin.png''),
      image_open = (\<lambda>p. if p = ''in.png'' then Inr (Image_RGBA toy_foreground)
                         else if p = ''scene.png'' then Inr (Image_RGB toy_scene)
                         else if p = ''thin.png'' then Inr (Image_RGB toy_thin)
                         else Inl (LibraryError ''cannot identify image file'')),
      stem = takeWhile (\<lambda>c. c \<noteq> CHR ''.'')\<rparr>"

text \<open>
  Models for a run of the two methods: segmentation cuts out an opaque product, the
  prompt generators and builders return fixed or concatenated strings, inpainting
  returns a fixed picture, the background generator a plain image of the size asked for,
  and saving returns the path.
\<close>

definition toy_cutout :: "rgba image" where
  "toy_cutout = new_image (4, 2) (250, 10, 10, 255)"

definition toy_inpainted :: "rgb image" where
  "toy_inpainted = new_image (4, 2) (1, 2, 3)"

definition toy_models :: models where
  "toy_models =
     \<lparr>remove = (\<lambda>im. Inr (Image_RGBA toy_cutout)),
      generate_for_method1 = (\<lambda>im. Inr (''a bottle on a marble table'', ''a bottle'')),
      generate_for_method2 = (\<lambda>im. Inr ''a marble table''),
      build_controlnet_prompt = (\<lambda>p d style path. Inr (d @ '' on '' @ p)),
      build_background_prompt = (\<lambda>p style palette. Inr p),
      inpaint_background = (\<lambda>im m p. Inr (Image_RGB toy_inpainted)),
      generate_background = (\<lambda>p w h. Inr (Image_RGB (new_image (w, h) (10, 20, 30)))),
      save_image = (\<lambda>im path. Inr path)\<rparr>"

section \<open>Mask processing\<close>

lemma reflect_id: "y < n \<Longrightarrow> reflect n (int y) = y"
  by (simp add: reflect_def Let_def)

lemma nearest_id: "y < n \<Longrightarrow> nearest n (int y) = y"
  by (simp add: nearest_def)

lemma origin_in_window: "0 < sz \<Longrightarrow> (0, 0) \<in> set (window sz)"
  by (auto simp: window_def Let_def)

lemma max_window_ge:
  assumes "0 < sz" "border (height im) (int y) = y" "border (width im) (int x) = x"
  shows "px im y x \<le> px (max_window border sz im) y x"
proof -
  define f where
    "f = (\<lambda>(dy, dx). px im (border (height im) (int y + dy)) (border (width im) (int x + dx)))"
  have "f (0, 0) \<in> f ` set (window sz)"
    using origin_in_window [OF assms(1)] by (rule imageI)
  then have "f (0, 0) \<le> Max (f ` set (window sz))"
    by (intro Max_ge) simp_all
  moreover have "f (0, 0) = px im y x"
    using assms by (simp add: f_def)
  moreover have "px (max_window border sz im) y x = Max (f ` set (window sz))"
    by (simp add: max_window_def f_def)
  ultimately show ?thesis by simp
qed

text \<open>
  C10. \<open>refine_mask\<close> returns a mask of the size of its input in which a pixel is 255
  where the input pixel is strictly greater than the threshold and 0 elsewhere, for
  every threshold; no other value occurs.
\<close>

theorem refine_mask_binary:
  "size_of (refine_mask m t) = size_of m \<and>
   px (refine_mask m t) y x = (if t < uint (px m y x) then 255 else 0) \<and>
   px (refine_mask m t) y x \<in> {0, 255}"
  by (simp add: refine_mask_def size_of_def)

theorem refine_mask_binary_witness:
  "size_of (refine_mask toy_mask 128) = (2, 2) \<and>
   px (refine_mask toy_mask 128) 0 1 = 255 \<and>
   px (refine_mask toy_mask 128) 1 0 = 0"
proof -
  have "size_of toy_mask = (2, 2)" "px toy_mask 0 1 = 200" "px toy_mask 1 0 = 90"
    by (simp_all add: toy_mask_def of_rows_def size_of_def)
  then show ?thesis
    using refine_mask_binary [of toy_mask 128 0 1] refine_mask_binary [of toy_mask 128 1 0]
    by simp
qed

text \<open>
  C5. \<open>_expand_mask\<close> returns the mask itself when the pixel count is zero or negative;
  for a positive count the result has the size of the mask and no pixel of it is below
  the mask's pixel, with scipy's filter and with Pillow's.
\<close>

theorem expand_mask_extensive:
  "(pixels \<le> 0 \<longrightarrow> expand_mask lib m pixels = m) \<and>
   (0 < pixels \<longrightarrow>
      size_of (expand_mask lib m pixels) = size_of m \<and>
      (\<forall>y x. y < height m \<and> x < width m \<longrightarrow>
         px m y x \<le> px (expand_mask lib m pixels) y x))"
proof -
  have sz: "size_of (max_window b s m) = size_of m" for b s
    by (simp add: max_window_def size_of_def)
  have ge: "px m y x \<le> px (expand_mask lib m pixels) y x"
    if "0 < pixels" "y < height m" "x < width m" for y x
  proof (cases "scipy_available lib")
    case True
    have "px m y x \<le> px (max_window reflect (pixels * 2 + 1) m) y x"
      using that by (intro max_window_ge reflect_id) simp_all
    then show ?thesis using that True by (simp add: expand_mask_def maximum_filter_def)
  next
    case False
    have "px m y x \<le> px (max_window nearest (pixels * 2 + 1) m) y x"
      using that by (intro max_window_ge nearest_id) simp_all
    then show ?thesis using that False by (simp add: expand_mask_def filter_MaxFilter_def)
  qed
  have "size_of (expand_mask lib m pixels) = size_of m"
    by (simp add: expand_mask_def maximum_filter_def filter_MaxFilter_def sz)
  moreover have "pixels \<le> 0 \<Longrightarrow> expand_mask lib m pixels = m"
    by (simp add: expand_mask_def)
  ultimately show ?thesis using ge by blast
qed

theorem expand_mask_extensive_witness:
  "expand_mask toy_pil toy_mask 0 = toy_mask \<and>
   size_of (expand_mask toy_pil toy_mask 1) = (2, 2) \<and>
   px toy_mask 1 0 = 90 \<and> px (expand_mask toy_pil toy_mask 1) 1 0 = 200 \<and>
   px toy_mask 1 0 \<le> px (expand_mask toy_pil toy_mask 1) 1 0"
proof -
  have "height toy_mask = 2" "width toy_mask = 2" "size_of toy_mask = (2, 2)"
    "px toy_mask 1 0 = 90"
    by (simp_all add: toy_mask_def of_rows_def size_of_def)
  moreover have "px (expand_mask toy_pil toy_mask 1) 1 0 = 200"
    by code_simp
  ultimately show ?thesis
    using expand_mask_extensive [of 0 toy_pil toy_mask]
      expand_mask_extensive [of 1 toy_pil toy_mask]
    by simp
qed

text \<open>
  C2. For the operation \<open>for_inpainting\<close>, \<open>process_mask\<close> returns the inverse of the
  feathered dilation of the mask (or raises what the blur raises): the mask is dilated by
  the configured pixel count (default 10) with a maximum filter of window \<open>2 p + 1\<close>,
  the dilated mask is feathered by a Gaussian blur of the configured radius (default 3),
  and the feathered mask is inverted, in this order.
\<close>

theorem process_mask_for_inpainting:
  "process_mask lib cfg m ''for_inpainting'' =
     bind (feather_edges lib (expand_mask lib m (get_or (cfg_expand_mask cfg) 10))
             (get_or (cfg_feather_pixels cfg) 3))
       (\<lambda>feathered. Inr (invert feathered)) \<and>
   (0 < p \<longrightarrow>
      expand_mask lib m p =
        max_window (if scipy_available lib then reflect else nearest) (p * 2 + 1) m) \<and>
   (0 < r \<longrightarrow> feather_edges lib m r = filter_GaussianBlur lib r m) \<and>
   size_of (invert m) = size_of m \<and>
   px (invert m) y x = 255 - px m y x"
proof -
  have "process_mask lib cfg m ''for_inpainting'' =
     bind (feather_edges lib (expand_mask lib m (get_or (cfg_expand_mask cfg) 10))
             (get_or (cfg_feather_pixels cfg) 3))
       (\<lambda>feathered. Inr (invert feathered))"
    by (simp add: process_mask_def prepare_inpainting_mask_def bind_def Let_def)
  moreover have "0 < p \<Longrightarrow> expand_mask lib m p =
        max_window (if scipy_available lib then reflect else nearest) (p * 2 + 1) m"
    by (simp add: expand_mask_def maximum_filter_def filter_MaxFilter_def)
  moreover have "0 < r \<Longrightarrow> feather_edges lib m r = filter_GaussianBlur lib r m"
    by (simp add: feather_edges_def)
  moreover have "size_of (invert m) = size_of m" "px (invert m) y x = 255 - px m y x"
    by (simp_all add: invert_def size_of_def)
  ultimately show ?thesis by blast
qed

theorem process_mask_for_inpainting_witness:
  "expand_mask toy_pil toy_mask 1 = max_window reflect 3 toy_mask \<and>
   feather_edges toy_pil toy_mask 3 = filter_GaussianBlur toy_pil 3 toy_mask \<and>
   px (invert toy_mask) 0 1 = 55 \<and>
   (case process_mask toy_pil (default_config\<lparr>cfg_expand_mask := Some 1\<rparr>) toy_mask ''for_inpainting'' of
      Inl e \<Rightarrow> [] | Inr im \<Rightarrow> to_rows im) = [[55, 55], [55, 55]]"
proof -
  note t = process_mask_for_inpainting [of toy_pil "default_config\<lparr>cfg_expand_mask := Some 1\<rparr>" toy_mask 1 3 0 1]
  have s: "scipy_available toy_pil" by (simp add: toy_pil_def)
  have "expand_mask toy_pil toy_mask 1 = max_window reflect 3 toy_mask"
    using t s by simp
  moreover have "feather_edges toy_pil toy_mask 3 = filter_GaussianBlur toy_pil 3 toy_mask"
    using t by simp
  moreover have "px toy_mask 0 1 = 200"
    by (simp add: toy_mask_def of_rows_def)
  then have "px (invert toy_mask) 0 1 = 55"
    using t by simp
  moreover have "(case process_mask toy_pil (default_config\<lparr>cfg_expand_mask := Some 1\<rparr>) toy_mask ''for_inpainting'' of
      Inl e \<Rightarrow> [] | Inr im \<Rightarrow> to_rows im) = [[55, 55], [55, 55]]"
    by code_simp
  ultimately show ?thesis
    by blast
qed

section \<open>Bounding box\<close>

lemma set_nonzero:
  "set (nonzero im) = {(x, y). y < height im \<and> x < width im \<and> px im y x \<noteq> 0}"
  by (auto simp: nonzero_def)

text \<open>
  C8. \<open>get_bounding_box\<close> returns \<open>None\<close> for a mask without a non-zero pixel. For a
  mask with a non-zero pixel it returns \<open>(x, y, width, height)\<close> with positive width and
  height, and every non-zero pixel of the mask lies in the columns \<open>x \<le> \<dots> < x + width\<close>
  and the rows \<open>y \<le> \<dots> < y + height\<close>.
\<close>

theorem get_bounding_box_covers:
  "((\<forall>y x. y < height m \<and> x < width m \<longrightarrow> px m y x = 0) \<longrightarrow> get_bounding_box m = None) \<and>
   ((\<exists>y x. y < height m \<and> x < width m \<and> px m y x \<noteq> 0) \<longrightarrow>
      (\<exists>bx by bw bh. get_bounding_box m = Some (bx, by, bw, bh) \<and> 0 < bw \<and> 0 < bh \<and>
         (\<forall>y x. y < height m \<and> x < width m \<and> px m y x \<noteq> 0 \<longrightarrow>
            bx \<le> int x \<and> int x < bx + bw \<and> by \<le> int y \<and> int y < by + bh)))"
proof (intro conjI impI)
  assume "\<forall>y x. y < height m \<and> x < width m \<longrightarrow> px m y x = 0"
  then have "set (nonzero m) = {}" unfolding set_nonzero by auto
  then show "get_bounding_box m = None"
    by (simp add: get_bounding_box_def getbbox_def)
next
  assume ex: "\<exists>y x. y < height m \<and> x < width m \<and> px m y x \<noteq> 0"
  define pts where "pts = nonzero m"
  define X where "X = fst ` set pts"
  define Y where "Y = snd ` set pts"
  from ex have ne: "pts \<noteq> []"
    using set_nonzero [of m] by (auto simp: pts_def)
  have fin: "finite X" "finite Y" "X \<noteq> {}" "Y \<noteq> {}"
    using ne by (simp_all add: X_def Y_def)
  have mem: "x \<in> X \<and> y \<in> Y" if "y < height m" "x < width m" "px m y x \<noteq> 0" for x y
  proof -
    have "(x, y) \<in> set pts" using that by (simp add: pts_def set_nonzero)
    then show ?thesis unfolding X_def Y_def by force
  qed
  have eq: "get_bounding_box m =
      Some (int (Min X), int (Min Y), int (Max X) + 1 - int (Min X), int (Max Y) + 1 - int (Min Y))"
    using ne by (simp add: get_bounding_box_def getbbox_def Let_def pts_def [symmetric] X_def Y_def)
  have "Min X \<le> Max X" "Min Y \<le> Max Y"
    using fin by (simp_all add: Min_le_iff)
  moreover have "Min X \<le> x \<and> x \<le> Max X \<and> Min Y \<le> y \<and> y \<le> Max Y"
    if "y < height m" "x < width m" "px m y x \<noteq> 0" for x y
    using mem [OF that] fin by simp
  ultimately show "\<exists>bx by bw bh. get_bounding_box m = Some (bx, by, bw, bh) \<and> 0 < bw \<and> 0 < bh \<and>
         (\<forall>y x. y < height m \<and> x < width m \<and> px m y x \<noteq> 0 \<longrightarrow>
            bx \<le> int x \<and> int x < bx + bw \<and> by \<le> int y \<and> int y < by + bh)"
    unfolding eq by (intro exI conjI allI impI; (rule refl)?) force+
qed

theorem get_bounding_box_covers_witness:
  "get_bounding_box (new_image (3, 2) 0) = None \<and>
   px toy_dot 1 2 = 7 \<and>
   get_bounding_box toy_dot = Some (2, 1, 1, 1)"
proof -
  have "get_bounding_box (new_image (3, 2) 0) = None"
    using get_bounding_box_covers [of "new_image (3, 2) 0"] by (simp add: new_image_def)
  moreover have "px toy_dot 1 2 = 7"
    by (simp add: toy_dot_def of_rows_def)
  moreover have "get_bounding_box toy_dot = Some (2, 1, 1, 1)"
    by code_simp
  ultimately show ?thesis by simp
qed

section \<open>Soft shadow\<close>

lemma rounds_id: "rounds (\<lambda>x. x)"
  by (simp add: rounds_def mono_def)

lemma rounds_mono: "rounds fl \<Longrightarrow> x \<le> y \<Longrightarrow> fl x \<le> fl y"
  by (simp add: rounds_def mono_def)

lemma rounds_nat: "rounds fl \<Longrightarrow> n \<le> 2 ^ 53 \<Longrightarrow> fl (real n) = real n"
  by (simp add: rounds_def)

lemma rounds_0: "rounds fl \<Longrightarrow> fl 0 = 0"
  using rounds_nat [of fl 0] by simp

lemma rounds_1: "rounds fl \<Longrightarrow> fl 1 = 1"
  using rounds_nat [of fl 1] by simp

lemma rounds_unit:
  assumes "rounds fl" "0 \<le> x" "x \<le> 1"
  shows "0 \<le> fl x \<and> fl x \<le> 1"
  using rounds_mono [OF assms(1,2)] rounds_mono [OF assms(1,3)] rounds_0 [OF assms(1)]
    rounds_1 [OF assms(1)] by simp

lemma unat_uint8_le: "unat (b :: uint8) \<le> 255"
  using unsigned_less [of b, where 'a = nat] by simp

lemma shadow_factor_unit:
  assumes "rounds fl" "0 \<le> opacity" "opacity \<le> 1"
  shows "0 \<le> shadow_factor fl opacity s \<and> shadow_factor fl opacity s \<le> 1"
proof -
  define n where "n = unat s"
  have "n \<le> 255" unfolding n_def by (rule unat_uint8_le)
  then have "0 \<le> real n / 255 \<and> real n / 255 \<le> 1" by simp
  then have a: "0 \<le> fl (real n / 255) \<and> fl (real n / 255) \<le> 1"
    using rounds_unit [OF assms(1)] by blast
  then have "0 \<le> fl (real n / 255) * opacity \<and> fl (real n / 255) * opacity \<le> 1"
    using assms(2,3) by (simp add: mult_le_one)
  then have b: "0 \<le> fl (fl (real n / 255) * opacity) \<and>
      fl (fl (real n / 255) * opacity) \<le> 1"
    using rounds_unit [OF assms(1)] by blast
  then have "0 \<le> 1 - fl (fl (real n / 255) * opacity) \<and>
      1 - fl (fl (real n / 255) * opacity) \<le> 1" by simp
  then show ?thesis
    unfolding shadow_factor_def n_def [symmetric] using rounds_unit [OF assms(1)] by blast
qed

lemma word_of_int_le_uint8:
  assumes "0 \<le> k" "k \<le> int n" "n \<le> 255"
  shows "(word_of_int k :: uint8) \<le> of_nat n"
proof -
  have "k < 2 ^ 8" "int n < 2 ^ 8" using assms by simp_all
  then have "take_bit 8 k = k" "take_bit 8 (int n) = int n"
    using assms(1) by (simp_all add: take_bit_int_eq_self)
  then have "take_bit LENGTH(8) k \<le> take_bit LENGTH(8) (int n)"
    using assms(2) by simp
  then have "(word_of_int k :: uint8) \<le> word_of_int (int n)"
    by (simp only: word_of_int_less_eq_iff)
  then show ?thesis by simp
qed

lemma astype_uint8_in_range:
  assumes "0 \<le> v" "v < 2 ^ 31"
  shows "astype_uint8 v = word_of_int \<lfloor>v\<rfloor>"
proof -
  define k where "k = \<lfloor>v\<rfloor>"
  have "v < of_int (2 ^ 31)" using assms(2) by simp
  then have "k < 2 ^ 31" unfolding k_def by (simp only: floor_less_iff)
  moreover have "0 \<le> k" unfolding k_def using assms(1) by simp
  moreover have "python_int v = k" unfolding k_def using assms(1) by (simp add: python_int_def)
  ultimately show ?thesis
    unfolding astype_uint8_def Let_def k_def [symmetric] by simp
qed

lemma darken_byte:
  assumes "rounds fl" "0 \<le> f" "f \<le> 1"
  shows "astype_uint8 (fl (real (unat b) * f)) \<le> b"
proof -
  define n where "n = unat b"
  define v where "v = fl (real n * f)"
  have n: "n \<le> 255" unfolding n_def by (rule unat_uint8_le)
  then have le: "n \<le> 2 ^ 53" by simp
  have "0 \<le> real n * f" "real n * f \<le> real n"
    using assms(2,3) by (simp_all add: mult_left_le)
  then have "fl 0 \<le> v" "v \<le> fl (real n)"
    unfolding v_def using rounds_mono [OF assms(1)] by blast+
  then have v: "0 \<le> v" "v \<le> real n"
    using rounds_0 [OF assms(1)] rounds_nat [OF assms(1) le] by simp_all
  then have k: "0 \<le> \<lfloor>v\<rfloor>" "\<lfloor>v\<rfloor> \<le> int n"
    by (simp_all add: floor_le_iff)
  have "(word_of_int \<lfloor>v\<rfloor> :: uint8) \<le> of_nat n"
    using k n by (rule word_of_int_le_uint8)
  moreover have "(of_nat n :: uint8) = b"
    unfolding n_def by simp
  moreover have "v < 2 ^ 31" using v(2) n by simp
  then have "astype_uint8 v = word_of_int \<lfloor>v\<rfloor>"
    using v(1) by (rule astype_uint8_in_range [rotated])
  then have "astype_uint8 (fl (real (unat b) * f)) = word_of_int \<lfloor>v\<rfloor>"
    unfolding v_def n_def .
  ultimately show ?thesis by simp
qed

lemma rgb_le_refl: "rgb_le p p"
  by (simp add: rgb_le_def split: prod.splits)

lemma rgb_le_map: "(\<And>b. g b \<le> b) \<Longrightarrow> rgb_le (map_rgb g p) p"
  by (simp add: rgb_le_def map_rgb_def split: prod.splits)

lemma broadcast_idx_id: "i < n \<Longrightarrow> broadcast_idx n i = i"
  by (simp add: broadcast_idx_def)

lemma filter_GaussianBlur_size:
  "filter_GaussianBlur lib r im = Inr out \<Longrightarrow> width out = width im \<and> height out = height im"
  by (auto simp: filter_GaussianBlur_def split: sum.splits)

lemma darken_le:
  assumes "rounds fl" "0 \<le> opacity" "opacity \<le> 1"
  shows "rgb_le (px (darken fl opacity bg sm) y x)
           (px bg (broadcast_idx (height bg) y) (broadcast_idx (width bg) x))"
proof -
  define f where "f = shadow_factor fl opacity
     (px sm (broadcast_idx (height sm) y) (broadcast_idx (width sm) x))"
  have f: "0 \<le> f \<and> f \<le> 1"
    unfolding f_def using assms by (rule shadow_factor_unit)
  then have "astype_uint8 (fl (real (unat b) * f)) \<le> b" for b
    using darken_byte [OF assms(1)] by blast
  then have "rgb_le (map_rgb (\<lambda>b. astype_uint8 (fl (real (unat b) * f))) p) p" for p
    by (rule rgb_le_map)
  then show ?thesis
    by (simp add: darken_def Let_def f_def [symmetric])
qed

lemma add_shadow_unfold:
  "add_shadow fl lib cfg bg m =
     (case filter_GaussianBlur lib (get_or (cfg_shadow_blur cfg) 15) (shift_down 20 m) of
        Inl e \<Rightarrow> bg
      | Inr sm \<Rightarrow>
          if broadcastable (height bg) (height sm) \<and> broadcastable (width bg) (width sm)
          then darken fl (get_or (cfg_shadow_opacity cfg) (fl (3 / 10))) bg sm
          else bg)"
  by (simp add: add_shadow_def Let_def)

lemma opacity_unit:
  assumes "rounds fl" "\<forall>v. cfg_shadow_opacity cfg = Some v \<longrightarrow> 0 \<le> v \<and> v \<le> 1"
  shows "0 \<le> get_or (cfg_shadow_opacity cfg) (fl (3 / 10)) \<and>
         get_or (cfg_shadow_opacity cfg) (fl (3 / 10)) \<le> 1"
proof (cases "cfg_shadow_opacity cfg")
  case None
  have "0 \<le> fl (3 / 10) \<and> fl (3 / 10) \<le> 1"
    using assms(1) by (rule rounds_unit) simp_all
  then show ?thesis using None by (simp add: get_or_def)
next
  case (Some v)
  then show ?thesis using assms(2) by (simp add: get_or_def)
qed

lemma add_shadow_le:
  assumes "rounds fl" "\<forall>v. cfg_shadow_opacity cfg = Some v \<longrightarrow> 0 \<le> v \<and> v \<le> 1"
    and "y < height (add_shadow fl lib cfg bg m)" "x < width (add_shadow fl lib cfg bg m)"
  shows "rgb_le (px (add_shadow fl lib cfg bg m) y x)
           (px bg (broadcast_idx (height bg) y) (broadcast_idx (width bg) x))"
proof -
  note op = opacity_unit [OF assms(1,2)]
  have "add_shadow fl lib cfg bg m = bg \<or>
      (\<exists>sm. add_shadow fl lib cfg bg m =
         darken fl (get_or (cfg_shadow_opacity cfg) (fl (3 / 10))) bg sm)"
    by (cases "filter_GaussianBlur lib (get_or (cfg_shadow_blur cfg) 15) (shift_down 20 m)")
      (auto simp add: add_shadow_unfold)
  then consider (same) "add_shadow fl lib cfg bg m = bg"
    | (dark) sm where "add_shadow fl lib cfg bg m =
         darken fl (get_or (cfg_shadow_opacity cfg) (fl (3 / 10))) bg sm"
    by blast
  then show ?thesis
  proof cases
    case same
    then show ?thesis
      using assms(3,4) by (simp add: broadcast_idx_id rgb_le_refl)
  next
    case dark
    show ?thesis
      unfolding dark using assms(1) op [THEN conjunct1] op [THEN conjunct2] by (rule darken_le)
  qed
qed

lemma add_shadow_same_size:
  assumes "size_of m = size_of bg"
  shows "size_of (add_shadow fl lib cfg bg m) = size_of bg"
proof (cases "filter_GaussianBlur lib (get_or (cfg_shadow_blur cfg) 15) (shift_down 20 m)")
  case (Inl e)
  then show ?thesis by (simp add: add_shadow_unfold)
next
  case (Inr sm)
  have "width sm = width m \<and> height sm = height m"
    using filter_GaussianBlur_size [OF Inr] by (simp add: shift_down_def)
  then have "width sm = width bg" "height sm = height bg"
    using assms by (simp_all add: size_of_def)
  then show ?thesis
    using Inr by (simp add: add_shadow_unfold broadcastable_def darken_def broadcast_len_def size_of_def)
qed

text \<open>
  C6. With a shadow opacity in \<open>[0, 1]\<close> (the default 0.3 is), no channel of a pixel of
  the output of \<open>_add_shadow\<close> is above the channel of the background pixel it is
  computed from, which is the pixel at the same place when mask and background have the
  same size; the output then has the size of the background. The background is
  multiplied by a factor \<open>1 - opacity * shadow / 255\<close> of \<open>[0, 1]\<close>, where the shadow is
  the Gaussian blur of the mask shifted down by 20 rows with the first 20 rows zero; when
  the blur or the multiplication raises, the background is returned as it is.
\<close>

theorem add_shadow_darkens:
  assumes "rounds fl"
    and "\<forall>v. cfg_shadow_opacity cfg = Some v \<longrightarrow> 0 \<le> v \<and> v \<le> 1"
  shows
    "(\<forall>y x. y < height (add_shadow fl lib cfg bg m) \<and> x < width (add_shadow fl lib cfg bg m) \<longrightarrow>
        rgb_le (px (add_shadow fl lib cfg bg m) y x)
          (px bg (broadcast_idx (height bg) y) (broadcast_idx (width bg) x))) \<and>
     (size_of m = size_of bg \<longrightarrow>
        size_of (add_shadow fl lib cfg bg m) = size_of bg \<and>
        (\<forall>y x. y < height bg \<and> x < width bg \<longrightarrow>
           rgb_le (px (add_shadow fl lib cfg bg m) y x) (px bg y x))) \<and>
     add_shadow fl lib cfg bg m =
       (case filter_GaussianBlur lib (get_or (cfg_shadow_blur cfg) 15) (shift_down 20 m) of
          Inl e \<Rightarrow> bg
        | Inr sm \<Rightarrow>
            if broadcastable (height bg) (height sm) \<and> broadcastable (width bg) (width sm)
            then darken fl (get_or (cfg_shadow_opacity cfg) (fl (3 / 10))) bg sm
            else bg) \<and>
     size_of (shift_down 20 m) = size_of m \<and>
     (\<forall>y x. px (shift_down 20 m) y x = (if y < 20 then 0 else px m (y - 20) x)) \<and>
     (\<forall>s. 0 \<le> shadow_factor fl (get_or (cfg_shadow_opacity cfg) (fl (3 / 10))) s \<and>
          shadow_factor fl (get_or (cfg_shadow_opacity cfg) (fl (3 / 10))) s \<le> 1)"
proof (intro conjI)
  show "\<forall>y x. y < height (add_shadow fl lib cfg bg m) \<and> x < width (add_shadow fl lib cfg bg m) \<longrightarrow>
        rgb_le (px (add_shadow fl lib cfg bg m) y x)
          (px bg (broadcast_idx (height bg) y) (broadcast_idx (width bg) x))"
    using add_shadow_le [OF assms] by blast
  show "size_of m = size_of bg \<longrightarrow>
        size_of (add_shadow fl lib cfg bg m) = size_of bg \<and>
        (\<forall>y x. y < height bg \<and> x < width bg \<longrightarrow>
           rgb_le (px (add_shadow fl lib cfg bg m) y x) (px bg y x))"
  proof (intro impI conjI allI)
    assume eq: "size_of m = size_of bg"
    then show sz: "size_of (add_shadow fl lib cfg bg m) = size_of bg"
      by (rule add_shadow_same_size)
    fix y x assume "y < height bg \<and> x < width bg"
    moreover from sz have "height (add_shadow fl lib cfg bg m) = height bg"
      "width (add_shadow fl lib cfg bg m) = width bg" by (simp_all add: size_of_def)
    ultimately show "rgb_le (px (add_shadow fl lib cfg bg m) y x) (px bg y x)"
      using add_shadow_le [OF assms, of y lib bg m x] by (simp add: broadcast_idx_id)
  qed
  show "add_shadow fl lib cfg bg m =
       (case filter_GaussianBlur lib (get_or (cfg_shadow_blur cfg) 15) (shift_down 20 m) of
          Inl e \<Rightarrow> bg
        | Inr sm \<Rightarrow>
            if broadcastable (height bg) (height sm) \<and> broadcastable (width bg) (width sm)
            then darken fl (get_or (cfg_shadow_opacity cfg) (fl (3 / 10))) bg sm
            else bg)"
    by (rule add_shadow_unfold)
  show "size_of (shift_down 20 m) = size_of m"
    by (simp add: shift_down_def size_of_def)
  show "\<forall>y x. px (shift_down 20 m) y x = (if y < 20 then 0 else px m (y - 20) x)"
    by (simp add: shift_down_def)
  show "\<forall>s. 0 \<le> shadow_factor fl (get_or (cfg_shadow_opacity cfg) (fl (3 / 10))) s \<and>
          shadow_factor fl (get_or (cfg_shadow_opacity cfg) (fl (3 / 10))) s \<le> 1"
    using shadow_factor_unit [OF assms(1)] opacity_unit [OF assms] by blast
qed

theorem add_shadow_darkens_witness:
  "rounds (\<lambda>x. x) \<and>
   px toy_background 20 0 = (200, 100, 50) \<and>
   px (add_shadow (\<lambda>x. x) toy_pil default_config toy_background toy_tall_mask) 0 0 = (200, 100, 50) \<and>
   px (add_shadow (\<lambda>x. x) toy_pil default_config toy_background toy_tall_mask) 20 0 = (140, 70, 35) \<and>
   size_of (add_shadow (\<lambda>x. x) toy_pil default_config toy_background toy_tall_mask) = (1, 21) \<and>
   rgb_le (px (add_shadow (\<lambda>x. x) toy_pil default_config toy_background toy_tall_mask) 20 0)
     (px toy_background 20 0)"
proof -
  have none: "\<forall>v. cfg_shadow_opacity default_config = Some v \<longrightarrow> 0 \<le> v \<and> v \<le> 1"
    by (simp add: default_config_def)
  note t = add_shadow_darkens [OF rounds_id none, of toy_pil toy_background toy_tall_mask,
      THEN conjunct2, THEN conjunct1]
  have sz: "size_of toy_tall_mask = size_of toy_background" "size_of toy_background = (1, 21)"
    "height toy_background = 21" "width toy_background = 1"
    by (simp_all add: toy_tall_mask_def toy_background_def new_image_def size_of_def)
  have "px toy_background 20 0 = (200, 100, 50)"
    by (simp add: toy_background_def new_image_def)
  moreover have
    "px (add_shadow (\<lambda>x. x) toy_pil default_config toy_background toy_tall_mask) 0 0 = (200, 100, 50)"
    by code_simp
  moreover have
    "px (add_shadow (\<lambda>x. x) toy_pil default_config toy_background toy_tall_mask) 20 0 = (140, 70, 35)"
    by code_simp
  moreover have
    "size_of (add_shadow (\<lambda>x. x) toy_pil default_config toy_background toy_tall_mask) = (1, 21)"
    using t sz by simp
  moreover have
    "rgb_le (px (add_shadow (\<lambda>x. x) toy_pil default_config toy_background toy_tall_mask) 20 0)
     (px toy_background 20 0)"
    using t sz by simp
  ultimately show ?thesis using rounds_id by blast
qed

section \<open>Compositing\<close>

lemma div255_near:
  assumes "a \<le> 65025"
  shows "255 * div255 a \<le> a + 127 \<and> a \<le> 255 * div255 a + 127 \<and> div255 a \<le> 255"
proof -
  define t where "t = a + 128"
  define q where "q = t div 256"
  define r where "r = t mod 256"
  have t: "t = 256 * q + r" and r: "r < 256"
    by (simp_all add: q_def r_def)
  have q: "q \<le> 254"
    using assms unfolding q_def t_def by simp
  have lo: "1 \<le> q + r"
  proof (cases "q = 0")
    case True
    then show ?thesis using t unfolding t_def by simp
  next
    case False
    then show ?thesis by simp
  qed
  have "q + t = q + r + q * 256" using t by simp
  then have d: "div255 a = (q + r) div 256 + q"
    unfolding div255_def Let_def t_def [symmetric] q_def [symmetric]
    by (simp only: div_mult_self1 [of 256 "q + r" q, simplified] div_mult_self3)
  show ?thesis
  proof (cases "q + r < 256")
    case True
    then have "div255 a = q" using d by simp
    then show ?thesis using t lo True q unfolding t_def by linarith
  next
    case False
    then have "(q + r) div 256 = 1" using q r by simp
    then have "div255 a = q + 1" using d by simp
    then show ?thesis using t lo False q r unfolding t_def by linarith
  qed
qed

lemma blend_sum_le:
  "unat (in1 :: uint8) * (255 - unat (m :: uint8)) + unat (in2 :: uint8) * unat m \<le> 65025"
proof -
  have a: "unat in1 \<le> 255" "unat in2 \<le> 255" "unat m \<le> 255"
    by (rule unat_uint8_le)+
  have "unat in1 * (255 - unat m) + unat in2 * unat m \<le> 255 * (255 - unat m) + 255 * unat m"
    using a by (intro add_mono mult_le_mono1)
  also have "\<dots> = 65025" using a(3) by simp
  finally show ?thesis .
qed

lemma unat_blend:
  "unat (blend m in1 in2) = div255 (unat in1 * (255 - unat m) + unat in2 * unat m)"
proof -
  have "div255 (unat in1 * (255 - unat m) + unat in2 * unat m) \<le> 255"
    using div255_near [OF blend_sum_le] by blast
  then have "div255 (unat in1 * (255 - unat m) + unat in2 * unat m) < 2 ^ LENGTH(8)"
    by simp
  then show ?thesis
    unfolding blend_def by (intro of_nat_inverse [OF refl])
qed

lemma blend_near:
  "\<bar>real (unat (blend m in1 in2)) -
     (real (unat in2) * (real (unat m) / 255) + real (unat in1) * (1 - real (unat m) / 255))\<bar>
   \<le> 1 / 2"
proof -
  define n1 where "n1 = unat in1"
  define n2 where "n2 = unat in2"
  define k where "k = unat m"
  define a where "a = n1 * (255 - k) + n2 * k"
  define d where "d = div255 a"
  have k: "k \<le> 255" unfolding k_def by (rule unat_uint8_le)
  have "a \<le> 65025" unfolding a_def n1_def n2_def k_def by (rule blend_sum_le)
  then have "255 * d \<le> a + 127 \<and> a \<le> 255 * d + 127"
    unfolding d_def using div255_near by blast
  then have "real (255 * d) \<le> real (a + 127) \<and> real a \<le> real (255 * d + 127)"
    by (simp only: of_nat_le_iff)
  then have "real d * 255 \<le> real a + 127 \<and> real a \<le> 127 + real d * 255"
    by simp
  then have "real d - real a / 255 \<le> 1 / 2" "- (1 / 2) \<le> real d - real a / 255"
    by linarith+
  then have "\<bar>real d - real a / 255\<bar> \<le> 1 / 2"
    by (rule abs_leI [OF _ minus_le_iff [THEN iffD1]])
  moreover have "real a / 255 = real n2 * (real k / 255) + real n1 * (1 - real k / 255)"
    unfolding a_def using k by (simp add: field_simps)
  moreover have "unat (blend m in1 in2) = d"
    unfolding d_def a_def n1_def n2_def k_def by (rule unat_blend)
  ultimately show ?thesis
    unfolding n1_def n2_def k_def by simp
qed

lemma bind_Inr [simp]: "bind (Inr v) f = f v"
  by (simp add: bind_def)

lemma bind_Inl [simp]: "bind (Inl e) f = Inl e"
  by (simp add: bind_def)

lemma resized_size: "size_of (resized f im sz) = sz"
  by (auto simp: resized_def size_of_def)

lemma resize_RGB_ok:
  "0 < fst sz \<Longrightarrow> 0 < snd sz \<Longrightarrow> resize_RGB lib im sz = Inr (resized (lanczos_RGB lib) im sz)"
  by (simp add: resize_RGB_def resized_def)

lemma resize_L_ok:
  "0 < fst sz \<Longrightarrow> 0 < snd sz \<Longrightarrow> resize_L lib im sz = Inr (resized (lanczos_L lib) im sz)"
  by (simp add: resize_L_def resized_def)

lemma resize_RGB_Inr: "resize_RGB lib im sz = Inr out \<Longrightarrow> out = resized (lanczos_RGB lib) im sz"
  by (auto simp: resize_RGB_def resized_def split: if_splits)

lemma resize_L_Inr: "resize_L lib im sz = Inr out \<Longrightarrow> out = resized (lanczos_L lib) im sz"
  by (auto simp: resize_L_def resized_def split: if_splits)

lemma resize_RGB_same: "resize_RGB lib im (size_of im) = Inr im"
  by (simp add: resize_RGB_def)

lemma refine_edges_size: "size_of (refine_edges lib m) = size_of m"
  by (auto simp: refine_edges_def size_of_def dest: filter_GaussianBlur_size split: sum.splits)

lemma refine_edges_eq:
  "refine_edges lib m = (case gaussian_blur lib 1 m of Inl e \<Rightarrow> m | Inr p \<Rightarrow> m\<lparr>px := p\<rparr>)"
  by (simp add: refine_edges_def filter_GaussianBlur_def split: sum.splits)

lemma convert_RGBA_size: "size_of (convert_RGBA lib im) = pil_size im"
  by (cases im) (simp_all add: convert_RGBA_def size_of_def)

lemma convert_RGB_size: "size_of (convert_RGB lib im) = pil_size im"
  by (cases im) (simp_all add: convert_RGB_def size_of_def)

lemma as_RGBA: "(case fg of Image_RGBA im \<Rightarrow> im | _ \<Rightarrow> convert_RGBA lib fg) = convert_RGBA lib fg"
  by (cases fg) (simp_all add: convert_RGBA_def)

lemma as_RGB: "(case bg of Image_RGB im \<Rightarrow> im | _ \<Rightarrow> convert_RGB lib bg) = convert_RGB lib bg"
  by (cases bg) (simp_all add: convert_RGB_def)

lemma foreground_rgb_eq:
  "foreground_rgb F =
     Inr \<lparr>width = width F, height = height F,
          px = (\<lambda>y x. if y < height F \<and> x < width F
                       then blend_rgb (case px F y x of (r, g, b, a) \<Rightarrow> a) (0, 0, 0)
                              (drop_alpha (px F y x))
                       else (0, 0, 0))\<rparr>"
  by (simp add: foreground_rgb_def paste_RGBA_def paste_def alpha_band_def new_image_def size_of_def
      cong: if_cong)

lemma Image_composite_eq:
  assumes "size_of msk = size_of im1"
  shows "Image_composite im1 im2 msk =
     Inr (im2\<lparr>px := \<lambda>y x. if y < height im1 \<and> x < width im1
                          then blend_rgb (px msk y x) (px im2 y x) (px im1 y x)
                          else px im2 y x\<rparr>)"
  using assms by (simp add: Image_composite_def paste_def)

lemma composite_unfold:
  "composite fl lib cfg fg bg msk =
     bind (if size_of (convert_RGBA lib fg) \<noteq> size_of (convert_RGB lib bg)
           then resize_RGB lib (convert_RGB lib bg) (size_of (convert_RGBA lib fg))
           else Inr (convert_RGB lib bg)) (\<lambda>B1.
     bind (case msk of
             None \<Rightarrow> Inr (alpha_band (convert_RGBA lib fg))
           | Some m \<Rightarrow>
               if size_of m \<noteq> size_of (convert_RGBA lib fg)
               then resize_L lib m (size_of (convert_RGBA lib fg))
               else Inr m) (\<lambda>M1.
     bind (foreground_rgb (convert_RGBA lib fg)) (\<lambda>fgp.
       Image_composite fgp
         (if get_or (cfg_shadow_generation cfg) True
          then add_shadow fl lib cfg B1
                 (if get_or (cfg_edge_refinement cfg) True then refine_edges lib M1 else M1)
          else B1)
         (if get_or (cfg_edge_refinement cfg) True then refine_edges lib M1 else M1))))"
proof -
  have "bind r (\<lambda>c. Inr (if b then match_colors c f m else c)) = r" for r b f m
    by (cases r) (simp_all add: match_colors_def)
  then show ?thesis
    unfolding composite_def Let_def as_RGBA as_RGB by simp
qed

lemma composite_returns:
  assumes F: "F = convert_RGBA lib fg" and B: "B = convert_RGB lib bg"
    and b1: "(if size_of F \<noteq> size_of B then resize_RGB lib B (size_of F) else Inr B) = Inr B1"
    and m1: "(case msk of
               None \<Rightarrow> Inr (alpha_band F)
             | Some m \<Rightarrow> if size_of m \<noteq> size_of F then resize_L lib m (size_of F) else Inr m)
             = Inr M1"
    and M2: "M2 = (if get_or (cfg_edge_refinement cfg) True then refine_edges lib M1 else M1)"
    and B2: "B2 = (if get_or (cfg_shadow_generation cfg) True
                   then add_shadow fl lib cfg B1 M2 else B1)"
  shows "\<exists>out. composite fl lib cfg fg bg msk = Inr out \<and>
           size_of out = size_of F \<and> size_of B1 = size_of F \<and> size_of M2 = size_of F \<and>
           size_of B2 = size_of F \<and>
           (\<forall>y x. y < height F \<and> x < width F \<longrightarrow>
              px out y x =
                blend_rgb (px M2 y x) (px B2 y x)
                  (blend_rgb (case px F y x of (r, g, b, a) \<Rightarrow> a) (0, 0, 0)
                     (drop_alpha (px F y x))))"
proof -
  have sB1: "size_of B1 = size_of F"
    using b1 resized_size [of "lanczos_RGB lib" B "size_of F"]
    by (auto split: if_splits dest!: resize_RGB_Inr)
  have sM1: "size_of M1 = size_of F"
  proof (cases msk)
    case None
    then show ?thesis using m1 by (auto simp: alpha_band_def size_of_def)
  next
    case (Some m)
    then show ?thesis
      using m1 resized_size [of "lanczos_L lib" m "size_of F"]
      by (auto split: if_splits dest!: resize_L_Inr)
  qed
  have sM2: "size_of M2 = size_of F"
    unfolding M2 using sM1 by (simp add: refine_edges_size)
  have sB2: "size_of B2 = size_of F"
    unfolding B2 using sB1 sM2 by (simp add: add_shadow_same_size)
  define fgp where "fgp = \<lparr>width = width F, height = height F,
          px = (\<lambda>y x. if y < height F \<and> x < width F
                       then blend_rgb (case px F y x of (r, g, b, a) \<Rightarrow> a) (0, 0, 0)
                              (drop_alpha (px F y x))
                       else (0, 0, 0))\<rparr>"
  have fgp: "foreground_rgb F = Inr fgp" unfolding fgp_def by (rule foreground_rgb_eq)
  have sfgp: "size_of fgp = size_of F" "height fgp = height F" "width fgp = width F"
    by (simp_all add: fgp_def size_of_def)
  have "composite fl lib cfg fg bg msk = Image_composite fgp B2 M2"
    unfolding composite_unfold b1 [unfolded F B] m1 [unfolded F] fgp [unfolded F] bind_Inr M2 B2
    by (rule refl)
  also have "\<dots> = Inr (B2\<lparr>px := \<lambda>y x. if y < height fgp \<and> x < width fgp
                          then blend_rgb (px M2 y x) (px B2 y x) (px fgp y x)
                          else px B2 y x\<rparr>)"
    using sM2 sfgp(1) by (intro Image_composite_eq) simp
  finally have c: "composite fl lib cfg fg bg msk =
      Inr (B2\<lparr>px := \<lambda>y x. if y < height fgp \<and> x < width fgp
                          then blend_rgb (px M2 y x) (px B2 y x) (px fgp y x)
                          else px B2 y x\<rparr>)" .
  have p: "px fgp y x = blend_rgb (case px F y x of (r, g, b, a) \<Rightarrow> a) (0, 0, 0)
                     (drop_alpha (px F y x))" if "y < height F \<and> x < width F" for y x
    using that by (simp add: fgp_def)
  show ?thesis
    using c sB1 sM2 sB2 p by (simp add: sfgp size_of_def)
qed

lemma composite_ok:
  assumes "0 < fst (pil_size fg)" "0 < snd (pil_size fg)"
    and F: "F = convert_RGBA lib fg"
    and B1: "B1 = resized (lanczos_RGB lib) (convert_RGB lib bg) (pil_size fg)"
    and M1: "M1 = (case msk of
                    None \<Rightarrow> alpha_band F
                  | Some m \<Rightarrow> resized (lanczos_L lib) m (pil_size fg))"
    and M2: "M2 = (if get_or (cfg_edge_refinement cfg) True then refine_edges lib M1 else M1)"
    and B2: "B2 = (if get_or (cfg_shadow_generation cfg) True
                   then add_shadow fl lib cfg B1 M2 else B1)"
  shows "\<exists>out. composite fl lib cfg fg bg msk = Inr out \<and>
           size_of out = pil_size fg \<and> size_of B1 = pil_size fg \<and> size_of M2 = pil_size fg \<and>
           size_of B2 = pil_size fg \<and>
           (\<forall>y x. y < snd (pil_size fg) \<and> x < fst (pil_size fg) \<longrightarrow>
              px out y x =
                blend_rgb (px M2 y x) (px B2 y x)
                  (blend_rgb (case px F y x of (r, g, b, a) \<Rightarrow> a) (0, 0, 0)
                     (drop_alpha (px F y x))))"
proof -
  define B where "B = convert_RGB lib bg"
  have sF: "size_of F = pil_size fg" unfolding F by (rule convert_RGBA_size)
  have hw: "height F = snd (pil_size fg)" "width F = fst (pil_size fg)"
    using sF [symmetric] by (simp_all add: size_of_def)
  have b1: "(if size_of F \<noteq> size_of B then resize_RGB lib B (size_of F) else Inr B) = Inr B1"
    unfolding sF B1 B_def [symmetric] using assms(1,2)
    by (simp add: resize_RGB_ok) (simp add: resized_def)
  have m1: "(case msk of
               None \<Rightarrow> Inr (alpha_band F)
             | Some m \<Rightarrow> if size_of m \<noteq> size_of F then resize_L lib m (size_of F) else Inr m)
             = Inr M1"
    unfolding sF M1 using assms(1,2)
    by (cases msk) (simp_all add: resize_L_ok, simp add: resized_def)
  show ?thesis
    using composite_returns [OF F B_def b1 m1 M2 B2] unfolding sF hw .
qed

lemma composite_empty_foreground:
  assumes "pil_size fg = (w, h)" "w = 0 \<or> h = 0" "pil_size bg \<noteq> pil_size fg"
  shows "composite fl lib cfg fg bg msk = Inl (ValueError ''height and width must be > 0'')"
proof -
  have "resize_RGB lib (convert_RGB lib bg) (w, h) =
      Inl (ValueError ''height and width must be > 0'')"
    using assms by (auto simp: resize_RGB_def convert_RGB_size)
  then show ?thesis
    unfolding composite_unfold convert_RGBA_size convert_RGB_size using assms(1,3) by simp
qed

lemma add_shadow_px:
  assumes "size_of M = size_of B" "y < height B" "x < width B"
  shows "px (add_shadow fl lib cfg B M) y x =
     (case gaussian_blur lib (get_or (cfg_shadow_blur cfg) 15) (shift_down 20 M) of
        Inl e \<Rightarrow> px B y x
      | Inr s \<Rightarrow>
          (let f = fl (1 - fl (fl (real (unat (s y x)) / 255) *
                     get_or (cfg_shadow_opacity cfg) (fl (3 / 10))))
           in case px B y x of
                (r, g, b) \<Rightarrow>
                  (astype_uint8 (fl (real (unat r) * f)), astype_uint8 (fl (real (unat g) * f)),
                   astype_uint8 (fl (real (unat b) * f)))))"
proof (cases "gaussian_blur lib (get_or (cfg_shadow_blur cfg) 15) (shift_down 20 M)")
  case (Inl e)
  then show ?thesis
    by (simp add: add_shadow_unfold filter_GaussianBlur_def)
next
  case (Inr s)
  define S where "S = (shift_down 20 M)\<lparr>px := s\<rparr>"
  have g: "filter_GaussianBlur lib (get_or (cfg_shadow_blur cfg) 15) (shift_down 20 M) = Inr S"
    using Inr by (simp add: filter_GaussianBlur_def S_def)
  have sz: "height S = height B" "width S = width B"
    using assms(1) by (simp_all add: S_def shift_down_def size_of_def)
  have i: "broadcast_idx (height B) y = y" "broadcast_idx (width B) x = x"
    using assms(2,3) by (simp_all add: broadcast_idx_id)
  have "add_shadow fl lib cfg B M =
      darken fl (get_or (cfg_shadow_opacity cfg) (fl (3 / 10))) B S"
    unfolding add_shadow_unfold g by (simp add: sz broadcastable_def)
  moreover have "px S y x = s y x" by (simp add: S_def)
  ultimately show ?thesis
    using Inr
    by (simp add: darken_def Let_def sz i shadow_factor_def map_rgb_def split: prod.splits)
qed

text \<open>
  C9 (as amended). For a foreground of non-zero width and height, \<open>composite\<close> does not
  fail: it returns an image of exactly the size of the foreground. A background or a
  mask of another size is resized to the size of the foreground first, and each pixel
  of the result is the blend, through the (edge-refined) mask so resized, of the (shadowed)
  background so resized and of the foreground.
\<close>

theorem composite_size:
  assumes "0 < fst (pil_size fg)" "0 < snd (pil_size fg)"
  shows "\<exists>out. composite fl lib cfg fg bg msk = Inr out \<and> size_of out = pil_size fg \<and>
     (let F = convert_RGBA lib fg;
          B1 = resized (lanczos_RGB lib) (convert_RGB lib bg) (pil_size fg);
          M1 = (case msk of
                  None \<Rightarrow> alpha_band F
                | Some m \<Rightarrow> resized (lanczos_L lib) m (pil_size fg));
          M2 = (if get_or (cfg_edge_refinement cfg) True then refine_edges lib M1 else M1);
          B2 = (if get_or (cfg_shadow_generation cfg) True
                then add_shadow fl lib cfg B1 M2 else B1)
      in size_of B1 = pil_size fg \<and> size_of M2 = pil_size fg \<and> size_of B2 = pil_size fg \<and>
         (\<forall>y x. y < snd (pil_size fg) \<and> x < fst (pil_size fg) \<longrightarrow>
            px out y x =
              blend_rgb (px M2 y x) (px B2 y x)
                (blend_rgb (case px F y x of (r, g, b, a) \<Rightarrow> a) (0, 0, 0)
                   (drop_alpha (px F y x))))) \<and>
     (\<forall>f im sz. resized f im sz =
        (if size_of im = sz then im else \<lparr>width = fst sz, height = snd sz, px = f sz im\<rparr>))"
proof -
  have "\<forall>f im sz. resized f im sz =
        (if size_of im = sz then im else \<lparr>width = fst sz, height = snd sz, px = f sz im\<rparr>)"
    by (simp add: resized_def)
  then show ?thesis
    unfolding Let_def
    using composite_ok [OF assms refl refl refl refl refl, of fl lib cfg bg msk] by blast
qed

text \<open>
  A foreground without pixels over a background with pixels: \<open>resize\<close> refuses the
  size \<open>(0, 0)\<close> and \<open>composite\<close> raises.
\<close>

theorem composite_size_counterexample:
  "composite (\<lambda>x. x) toy_pil default_config (Image_RGBA toy_empty) (Image_RGB toy_scene) None =
     Inl (ValueError ''height and width must be > 0'')"
  by (rule composite_empty_foreground [of _ 0 0])
    (simp_all add: toy_empty_def toy_scene_def new_image_def size_of_def)

lemma toy_blur: "gaussian_blur toy_pil r im = Inr (px im)"
  by (simp add: toy_pil_def)

lemma toy_refine: "refine_edges toy_pil im = im"
  by (simp add: refine_edges_eq toy_blur)

lemma astype_uint8_unat: "astype_uint8 (real (unat b)) = b"
proof -
  define n where "n = unat b"
  have "n \<le> 255" unfolding n_def by (rule unat_uint8_le)
  then have "real n < 2 ^ 31" by simp
  then have "astype_uint8 (real n) = word_of_int \<lfloor>real n\<rfloor>"
    by (intro astype_uint8_in_range) simp_all
  also have "\<dots> = word_of_int (int n)" by (simp only: floor_of_nat)
  also have "\<dots> = b" unfolding n_def by simp
  finally show ?thesis unfolding n_def .
qed

lemma toy_shadow_top:
  assumes "y < 20" "size_of M = size_of B" "y < height B" "x < width B"
  shows "px (add_shadow (\<lambda>x. x) toy_pil cfg B M) y x = px B y x"
proof -
  have z: "px (shift_down 20 M) y x = 0"
    using assms(1) by (simp add: shift_down_def)
  show ?thesis
    unfolding add_shadow_px [OF assms(2,3,4)] toy_blur
    by (cases "px B y x") (simp add: z astype_uint8_unat del: of_nat_unat)
qed

theorem composite_size_witness:
  "0 < fst (pil_size (Image_RGBA toy_foreground)) \<and>
   0 < snd (pil_size (Image_RGBA toy_foreground)) \<and>
   size_of toy_scene = (4, 2) \<and>
   (case composite (\<lambda>x. x) toy_pil default_config (Image_RGBA toy_foreground)
           (Image_RGB toy_scene) (Some (new_image (1, 1) 255)) of
      Inr out \<Rightarrow> (size_of out, px out 0 0, px out 0 (Suc 0))
    | Inl e \<Rightarrow> ((0, 0), (0, 0, 0), (0, 0, 0))) = ((2, 1), (250, 10, 10), (0, 0, 0))"
proof -
  define fg where "fg = Image_RGBA toy_foreground"
  define bg where "bg = Image_RGB toy_scene"
  define B1 where "B1 = resized (lanczos_RGB toy_pil) toy_scene (2, 1)"
  define M1 where "M1 = resized (lanczos_L toy_pil) (new_image (1, 1) 255) (2, 1)"
  have sz: "pil_size fg = (2, 1)" "size_of toy_scene = (4, 2)"
    by (simp_all add: fg_def toy_foreground_def toy_scene_def of_rows_def new_image_def
        size_of_def)
  have pos: "0 < fst (pil_size fg)" "0 < snd (pil_size fg)"
    by (simp_all add: sz)
  have cv: "convert_RGBA toy_pil fg = toy_foreground" "convert_RGB toy_pil bg = toy_scene"
    by (simp_all add: fg_def bg_def convert_RGBA_def convert_RGB_def)
  have d: "get_or (cfg_edge_refinement default_config) True"
    "get_or (cfg_shadow_generation default_config) True"
    by (simp_all add: default_config_def get_or_def)
  obtain out where o: "composite (\<lambda>x. x) toy_pil default_config fg bg
        (Some (new_image (1, 1) 255)) = Inr out"
    and so: "size_of out = (2, 1)"
    and p: "\<forall>y x. y < 1 \<and> x < 2 \<longrightarrow>
            px out y x =
              blend_rgb (px M1 y x) (px (add_shadow (\<lambda>x. x) toy_pil default_config B1 M1) y x)
                (blend_rgb (case px toy_foreground y x of (r, g, b, a) \<Rightarrow> a) (0, 0, 0)
                   (drop_alpha (px toy_foreground y x)))"
    using composite_size [OF pos, of "\<lambda>x. x" toy_pil default_config bg
        "Some (new_image (1, 1) 255)"]
    unfolding Let_def sz cv fst_conv snd_conv toy_refine B1_def M1_def
    by (auto simp: d)
  have sB: "size_of M1 = size_of B1" "height B1 = 1" "width B1 = 2"
    by (simp_all add: M1_def B1_def resized_def size_of_def new_image_def toy_scene_def)
  have sh: "px (add_shadow (\<lambda>x. x) toy_pil default_config B1 M1) 0 x = px B1 0 x"
    if "x < 2" for x
    using that sB by (intro toy_shadow_top) simp_all
  have b: "px B1 0 x = (10, 20, 30)" for x
    by (simp add: B1_def resized_def toy_scene_def new_image_def size_of_def toy_pil_def)
  have m: "px M1 0 x = 255" for x
    by (simp add: M1_def resized_def new_image_def size_of_def toy_pil_def)
  have a: "px toy_foreground 0 0 = (250, 10, 10, 255)"
    "px toy_foreground 0 (Suc 0) = (0, 0, 0, 0)"
    by (simp_all add: toy_foreground_def of_rows_def)
  have bl: "blend_rgb 255 (0, 0, 0) (250, 10, 10) = (250, 10, 10)"
    "blend_rgb 255 (10, 20, 30) (250, 10, 10) = (250, 10, 10)"
    "blend_rgb 0 (0, 0, 0) (0, 0, 0) = (0, 0, 0)"
    "blend_rgb 255 (10, 20, 30) (0, 0, 0) = (0, 0, 0)"
    by (simp_all add: blend_rgb_def blend_def div255_def)
  have "px out 0 0 = (250, 10, 10)"
    using p [rule_format, of 0 0] by (simp add: sh b m a bl drop_alpha_def)
  moreover have "px out 0 (Suc 0) = (0, 0, 0)"
    using p [rule_format, of 0 "Suc 0"] by (simp add: sh b m a bl drop_alpha_def)
  ultimately show ?thesis
    using o so sz pos unfolding fg_def bg_def by simp
qed

lemma composite_Inr_inputs:
  assumes "composite fl lib cfg fg bg msk = Inr out"
  shows "(if size_of (convert_RGBA lib fg) \<noteq> size_of (convert_RGB lib bg)
          then resize_RGB lib (convert_RGB lib bg) (size_of (convert_RGBA lib fg))
          else Inr (convert_RGB lib bg)) =
         Inr (resized (lanczos_RGB lib) (convert_RGB lib bg) (pil_size fg))"
    and "(case msk of
            None \<Rightarrow> Inr (alpha_band (convert_RGBA lib fg))
          | Some m \<Rightarrow>
              if size_of m \<noteq> size_of (convert_RGBA lib fg)
              then resize_L lib m (size_of (convert_RGBA lib fg))
              else Inr m) =
         Inr (case msk of
                None \<Rightarrow> alpha_band (convert_RGBA lib fg)
              | Some m \<Rightarrow> resized (lanczos_L lib) m (pil_size fg))"
proof -
  define F where "F = convert_RGBA lib fg"
  define B where "B = convert_RGB lib bg"
  define rb where "rb = (if size_of F \<noteq> size_of B then resize_RGB lib B (size_of F) else Inr B)"
  define rm where "rm = (case msk of
               None \<Rightarrow> Inr (alpha_band F)
             | Some m \<Rightarrow> if size_of m \<noteq> size_of F then resize_L lib m (size_of F) else Inr m)"
  have sF: "size_of F = pil_size fg" unfolding F_def by (rule convert_RGBA_size)
  have c: "composite fl lib cfg fg bg msk = bind rb (\<lambda>B1. bind rm (\<lambda>M1.
     bind (foreground_rgb F) (\<lambda>fgp.
       Image_composite fgp
         (if get_or (cfg_shadow_generation cfg) True
          then add_shadow fl lib cfg B1
                 (if get_or (cfg_edge_refinement cfg) True then refine_edges lib M1 else M1)
          else B1)
         (if get_or (cfg_edge_refinement cfg) True then refine_edges lib M1 else M1))))"
    unfolding composite_unfold rb_def rm_def F_def B_def ..
  obtain B1 where b: "rb = Inr B1"
    using assms unfolding c by (cases rb) simp_all
  obtain M1 where m: "rm = Inr M1"
    using assms unfolding c b bind_Inr by (cases rm) simp_all
  have "B1 = resized (lanczos_RGB lib) B (pil_size fg)"
    using b unfolding rb_def sF
    by (auto simp: resized_def split: if_splits dest: resize_RGB_Inr)
  then show "(if size_of (convert_RGBA lib fg) \<noteq> size_of (convert_RGB lib bg)
          then resize_RGB lib (convert_RGB lib bg) (size_of (convert_RGBA lib fg))
          else Inr (convert_RGB lib bg)) =
         Inr (resized (lanczos_RGB lib) (convert_RGB lib bg) (pil_size fg))"
    using b unfolding rb_def F_def B_def by simp
  have "M1 = (case msk of
                None \<Rightarrow> alpha_band F
              | Some m \<Rightarrow> resized (lanczos_L lib) m (pil_size fg))"
    using m unfolding rm_def sF
    by (auto simp: resized_def split: option.splits if_splits dest: resize_L_Inr)
  then show "(case msk of
            None \<Rightarrow> Inr (alpha_band (convert_RGBA lib fg))
          | Some m \<Rightarrow>
              if size_of m \<noteq> size_of (convert_RGBA lib fg)
              then resize_L lib m (size_of (convert_RGBA lib fg))
              else Inr m) =
         Inr (case msk of
                None \<Rightarrow> alpha_band (convert_RGBA lib fg)
              | Some m \<Rightarrow> resized (lanczos_L lib) m (pil_size fg))"
    using m unfolding rm_def F_def by simp
qed

lemma blend_rgb_channels:
  "blend_rgb k (r1, g1, b1) (r2, g2, b2) = (blend k r1 r2, blend k g1 g2, blend k b1 b2)"
  by (simp add: blend_rgb_def)

text \<open>
  C3 (as amended). With edge refinement and shadow generation enabled (the defaults) and a
  shadow opacity in \<open>[0, 1]\<close>, a successful \<open>composite\<close> returns an image of the size of
  the foreground computed in this order: the mask (brought to the size of the foreground)
  is blurred with radius 1 for edge refinement; the background (brought to the size of
  the foreground) is darkened under the shadow, the blur of the refined mask shifted down
  by 20 rows, each channel being multiplied by \<open>1 - opacity * shadow / 255\<close> and no
  channel growing; and each pixel is Pillow's blend, through the refined mask \<open>m\<close>, of
  the shadowed background and of \<open>fgp\<close>, every channel a byte within \<open>1 / 2\<close> of
  \<open>fgp * (m / 255) + shadowed_bg * (1 - m / 255)\<close>. Here \<open>fgp\<close> is not the colour of
  the RGBA foreground but that colour blended on black through the foreground's own
  alpha \<open>a\<close>, a byte within \<open>1 / 2\<close> of \<open>fg * (a / 255)\<close>.
\<close>

theorem composite_alpha_blend_shadow:
  assumes "rounds fl"
    and "\<forall>v. cfg_shadow_opacity cfg = Some v \<longrightarrow> 0 \<le> v \<and> v \<le> 1"
    and "get_or (cfg_edge_refinement cfg) True" "get_or (cfg_shadow_generation cfg) True"
    and "composite fl lib cfg fg bg msk = Inr out"
  shows
    "let F = convert_RGBA lib fg;
         sz = pil_size fg;
         B1 = resized (lanczos_RGB lib) (convert_RGB lib bg) sz;
         M1 = (case msk of
                 None \<Rightarrow> alpha_band F
               | Some m \<Rightarrow> resized (lanczos_L lib) m sz);
         m = (case gaussian_blur lib 1 M1 of Inl e \<Rightarrow> M1 | Inr p \<Rightarrow> M1\<lparr>px := p\<rparr>);
         opacity = get_or (cfg_shadow_opacity cfg) (fl (3 / 10));
         shadowed = (\<lambda>y x.
           case gaussian_blur lib (get_or (cfg_shadow_blur cfg) 15) (shift_down 20 m) of
             Inl e \<Rightarrow> px B1 y x
           | Inr s \<Rightarrow>
               (let f = fl (1 - fl (fl (real (unat (s y x)) / 255) * opacity))
                in case px B1 y x of
                     (r, g, b) \<Rightarrow>
                       (astype_uint8 (fl (real (unat r) * f)),
                        astype_uint8 (fl (real (unat g) * f)),
                        astype_uint8 (fl (real (unat b) * f)))));
         fgp = (\<lambda>y x. blend_rgb (case px F y x of (r, g, b, a) \<Rightarrow> a) (0, 0, 0)
                        (drop_alpha (px F y x)))
     in size_of out = sz \<and>
        (\<forall>y x. y < snd sz \<and> x < fst sz \<longrightarrow>
           px out y x = blend_rgb (px m y x) (shadowed y x) (fgp y x) \<and>
           rgb_le (shadowed y x) (px B1 y x)) \<and>
        (\<forall>y x. px (shift_down 20 m) y x = (if y < 20 then 0 else px m (y - 20) x)) \<and>
        (\<forall>k r1 g1 b1 r2 g2 b2.
           blend_rgb k (r1, g1, b1) (r2, g2, b2) =
             (blend k r1 r2, blend k g1 g2, blend k b1 b2)) \<and>
        (\<forall>k in1 in2.
           \<bar>real (unat (blend k in1 in2)) -
             (real (unat in2) * (real (unat k) / 255) +
              real (unat in1) * (1 - real (unat k) / 255))\<bar> \<le> 1 / 2)"
proof -
  let ?F = "convert_RGBA lib fg"
  let ?sz = "pil_size fg"
  let ?B1 = "resized (lanczos_RGB lib) (convert_RGB lib bg) ?sz"
  let ?M1 = "case msk of
                 None \<Rightarrow> alpha_band ?F
               | Some m \<Rightarrow> resized (lanczos_L lib) m ?sz"
  let ?m = "case gaussian_blur lib 1 ?M1 of Inl e \<Rightarrow> ?M1 | Inr p \<Rightarrow> ?M1\<lparr>px := p\<rparr>"
  let ?B2 = "add_shadow fl lib cfg ?B1 ?m"
  let ?SH = "\<lambda>y x.
           case gaussian_blur lib (get_or (cfg_shadow_blur cfg) 15) (shift_down 20 ?m) of
             Inl e \<Rightarrow> px ?B1 y x
           | Inr s \<Rightarrow>
               (case px ?B1 y x of
                     (r, g, b) \<Rightarrow>
                       (astype_uint8 (fl (real (unat r) *
                          fl (1 - fl (fl (real (unat (s y x)) / 255) *
                             get_or (cfg_shadow_opacity cfg) (fl (3 / 10)))))),
                        astype_uint8 (fl (real (unat g) *
                          fl (1 - fl (fl (real (unat (s y x)) / 255) *
                             get_or (cfg_shadow_opacity cfg) (fl (3 / 10)))))),
                        astype_uint8 (fl (real (unat b) *
                          fl (1 - fl (fl (real (unat (s y x)) / 255) *
                             get_or (cfg_shadow_opacity cfg) (fl (3 / 10))))))))"
  let ?FGP = "\<lambda>y x. blend_rgb (case px ?F y x of (r, g, b, a) \<Rightarrow> a) (0, 0, 0)
                        (drop_alpha (px ?F y x))"
  have sF: "size_of ?F = ?sz" by (rule convert_RGBA_size)
  have hw: "height ?F = snd ?sz" "width ?F = fst ?sz"
    using sF [symmetric] by (simp_all add: size_of_def)
  note inp = composite_Inr_inputs [OF assms(5)]
  have m_eq: "refine_edges lib ?M1 = ?m" by (rule refine_edges_eq)
  have M2: "?m = (if get_or (cfg_edge_refinement cfg) True then refine_edges lib ?M1 else ?M1)"
    using assms(3) by (simp only: m_eq if_True)
  have B2: "?B2 = (if get_or (cfg_shadow_generation cfg) True
                   then add_shadow fl lib cfg ?B1 ?m else ?B1)"
    using assms(4) by (simp only: if_True)
  obtain out' where r: "composite fl lib cfg fg bg msk = Inr out'"
      "size_of out' = size_of ?F" "size_of ?B1 = size_of ?F" "size_of ?m = size_of ?F"
      "size_of ?B2 = size_of ?F"
      "\<forall>y x. y < height ?F \<and> x < width ?F \<longrightarrow>
              px out' y x = blend_rgb (px ?m y x) (px ?B2 y x) (?FGP y x)"
    using composite_returns [OF refl refl inp(1) inp(2) M2 B2] by blast
  have out: "out' = out" using r(1) assms(5) by simp
  have hB1: "height ?B1 = snd ?sz" "width ?B1 = fst ?sz"
    "height ?B2 = snd ?sz" "width ?B2 = fst ?sz"
    using r(3,5) sF [symmetric] by (simp_all add: size_of_def)
  have mB1: "size_of ?m = size_of ?B1" using r(3,4) by simp
  have sh: "px ?B2 y x = ?SH y x" if "y < snd ?sz" "x < fst ?sz" for y x
  proof -
    have "y < height ?B1" "x < width ?B1" using that by (simp_all only: hB1)
    from add_shadow_px [OF mB1 this, of fl lib cfg] show ?thesis
      unfolding Let_def .
  qed
  have le: "rgb_le (?SH y x) (px ?B1 y x)" if "y < snd ?sz" "x < fst ?sz" for y x
  proof -
    have "y < height ?B2" "x < width ?B2" using that by (simp_all only: hB1)
    from add_shadow_le [OF assms(1,2) this]
    have "rgb_le (px ?B2 y x)
        (px ?B1 (broadcast_idx (height ?B1) y) (broadcast_idx (width ?B1) x))" .
    moreover have "broadcast_idx (height ?B1) y = y" "broadcast_idx (width ?B1) x = x"
      using that by (simp_all only: hB1 broadcast_idx_id)
    ultimately have "rgb_le (px ?B2 y x) (px ?B1 y x)" by simp
    then show ?thesis unfolding sh [OF that] .
  qed
  have px: "px out y x = blend_rgb (px ?m y x) (?SH y x) (?FGP y x)"
    if "y < snd ?sz" "x < fst ?sz" for y x
  proof -
    have "px out y x = blend_rgb (px ?m y x) (px ?B2 y x) (?FGP y x)"
      using r(6) that unfolding out hw by blast
    then show ?thesis unfolding sh [OF that] .
  qed
  have sd: "\<forall>y x. px (shift_down 20 ?m) y x = (if y < 20 then 0 else px ?m (y - 20) x)"
    by (simp add: shift_down_def)
  have so: "size_of out = ?sz" using r(2) unfolding out sF .
  have bc: "\<forall>k r1 g1 b1 r2 g2 b2.
           blend_rgb k (r1, g1, b1) (r2, g2, b2) =
             (blend k r1 r2, blend k g1 g2, blend k b1 b2)"
    by (simp add: blend_rgb_channels)
  have bn: "\<forall>k in1 in2.
           \<bar>real (unat (blend k in1 in2)) -
             (real (unat in2) * (real (unat k) / 255) +
              real (unat in1) * (1 - real (unat k) / 255))\<bar> \<le> 1 / 2"
    using blend_near by blast
  have pl: "\<forall>y x. y < snd ?sz \<and> x < fst ?sz \<longrightarrow>
           px out y x = blend_rgb (px ?m y x) (?SH y x) (?FGP y x) \<and>
           rgb_le (?SH y x) (px ?B1 y x)"
    using px le by blast
  show ?thesis
    unfolding Let_def using so pl sd bc bn by (intro conjI)
qed

lemma toy_product_facts:
  "pil_size (Image_RGBA toy_product) = (2, 22)"
  "size_of toy_product = (2, 22)"
  "convert_RGBA lib (Image_RGBA toy_product) = toy_product"
  "convert_RGB lib (Image_RGB toy_scene) = toy_scene"
  "px toy_product y x = (250, 10, 10, 128)"
  "resized f toy_product_mask (2, 22) = toy_product_mask"
  "px toy_product_mask y x = 100"
  "size_of toy_product_mask = (2, 22)"
  "size_of (resized g toy_scene (2, 22)) = (2, 22)"
  "height (resized g toy_scene (2, 22)) = 22"
  "width (resized g toy_scene (2, 22)) = 2"
  "px (resized (lanczos_RGB toy_pil) toy_scene (2, 22)) y x = (10, 20, 30)"
  "px (resized (lanczos_RGB toy_pil_blur) toy_scene (2, 22)) y x = (10, 20, 30)"
  by (simp_all add: toy_product_def toy_product_mask_def toy_scene_def new_image_def size_of_def
      convert_RGBA_def convert_RGB_def resized_def toy_pil_def toy_pil_blur_def)

lemma toy_defaults:
  "get_or (cfg_edge_refinement default_config) True"
  "get_or (cfg_shadow_generation default_config) True"
  "\<forall>v. cfg_shadow_opacity default_config = Some v \<longrightarrow> 0 \<le> v \<and> v \<le> 1"
  "get_or (cfg_shadow_opacity default_config) d = d"
  by (simp_all add: default_config_def get_or_def)

lemma toy_blends:
  "blend_rgb 128 (0, 0, 0) (250, 10, 10) = (125, 5, 5)"
  "blend_rgb 100 (10, 20, 30) (125, 5, 5) = (55, 14, 20)"
  "blend_rgb 50 (10, 20, 30) (125, 5, 5) = (33, 17, 25)"
  "blend_rgb 100 (9, 18, 27) (125, 5, 5) = (54, 13, 18)"
  by (simp_all add: blend_rgb_def blend_def div255_def)

lemma toy_blur_half:
  "gaussian_blur toy_pil_blur r im =
     Inr (\<lambda>y x. px im y x div 2 + (if y = 0 then 0 else px im (y - 1) x div 2))"
  by (simp add: toy_pil_blur_def)

lemma toy_halves:
  "(100 :: uint8) div 2 = 50" "(50 :: uint8) div 2 = 25" "(0 :: uint8) div 2 = 0"
  "(50 :: uint8) + 50 = 100" "(50 :: uint8) + 25 = 75"
  by simp_all

lemma toy_astype:
  "astype_uint8 10 = 10" "astype_uint8 20 = 20" "astype_uint8 30 = 30"
  "astype_uint8 (155 / 17) = 9" "astype_uint8 (310 / 17) = 18" "astype_uint8 (465 / 17) = 27"
  by (simp_all add: astype_uint8_def python_int_def Let_def)

theorem composite_alpha_blend_shadow_counterexample:
  "px toy_product 0 0 = (250, 10, 10, 128) \<and> px toy_product_mask 0 0 = 100 \<and>
   px (add_shadow (\<lambda>x. x) toy_pil default_config
         (resized (lanczos_RGB toy_pil) toy_scene (2, 22)) toy_product_mask) 0 0 = (10, 20, 30) \<and>
   (case composite (\<lambda>x. x) toy_pil default_config (Image_RGBA toy_product)
           (Image_RGB toy_scene) (Some toy_product_mask) of
      Inr out \<Rightarrow> px out 0 0 | Inl e \<Rightarrow> (0, 0, 0)) = (55, 14, 20) \<and>
   \<not> \<bar>55 - (250 * (100 / 255) + 10 * (1 - 100 / 255))\<bar> \<le> (1 / 2 :: real)"
proof -
  let ?B1 = "resized (lanczos_RGB toy_pil) toy_scene (2, 22)"
  obtain out where o: "composite (\<lambda>x. x) toy_pil default_config (Image_RGBA toy_product)
           (Image_RGB toy_scene) (Some toy_product_mask) = Inr out"
    and p: "\<forall>y x. y < 22 \<and> x < 2 \<longrightarrow>
              px out y x =
                blend_rgb (px toy_product_mask y x)
                  (px (add_shadow (\<lambda>x. x) toy_pil default_config ?B1 toy_product_mask) y x)
                  (blend_rgb (case px toy_product y x of (r, g, b, a) \<Rightarrow> a) (0, 0, 0)
                     (drop_alpha (px toy_product y x)))"
    using composite_ok [OF _ _ refl refl refl refl refl, of "Image_RGBA toy_product"
        "\<lambda>x. x" toy_pil default_config "Image_RGB toy_scene" "Some toy_product_mask"]
    by (auto simp: toy_defaults toy_product_facts toy_refine)
  have sh: "px (add_shadow (\<lambda>x. x) toy_pil default_config ?B1 toy_product_mask) 0 0 = px ?B1 0 0"
    by (intro toy_shadow_top) (simp_all add: toy_product_facts)
  then have "px out 0 0 = (55, 14, 20)"
    using p [rule_format, of 0 0] by (simp add: toy_product_facts toy_blends drop_alpha_def)
  then show ?thesis
    using o sh by (simp add: toy_product_facts)
qed

theorem composite_alpha_blend_shadow_witness:
  "rounds (\<lambda>x. x) \<and>
   cfg_shadow_opacity default_config = None \<and>
   get_or (cfg_edge_refinement default_config) True \<and>
   get_or (cfg_shadow_generation default_config) True \<and>
   (case composite (\<lambda>x. x) toy_pil_blur default_config (Image_RGBA toy_product)
           (Image_RGB toy_scene) (Some toy_product_mask) of
      Inr out \<Rightarrow> (size_of out, px out 0 0, px out 21 0)
    | Inl e \<Rightarrow> ((0, 0), (0, 0, 0), (0, 0, 0))) = ((2, 22), (33, 17, 25), (54, 13, 18))"
proof -
  obtain out where o: "composite (\<lambda>x. x) toy_pil_blur default_config (Image_RGBA toy_product)
           (Image_RGB toy_scene) (Some toy_product_mask) = Inr out"
    using composite_ok [OF _ _ refl refl refl refl refl, of "Image_RGBA toy_product"
        "\<lambda>x. x" toy_pil_blur default_config "Image_RGB toy_scene" "Some toy_product_mask"]
    by (auto simp: toy_product_facts)
  note t = composite_alpha_blend_shadow [OF rounds_id toy_defaults(3) toy_defaults(1)
      toy_defaults(2) o, unfolded Let_def]
  have so: "size_of out = (2, 22)"
    using t [THEN conjunct1] by (simp add: toy_product_facts)
  have "px out 0 0 = (33, 17, 25)"
    using t [THEN conjunct2, THEN conjunct1, rule_format, of 0 0]
    by (simp add: toy_product_facts toy_defaults toy_blur_half toy_halves toy_astype toy_blends
        drop_alpha_def shift_down_def)
  moreover have "px out 21 0 = (54, 13, 18)"
    using t [THEN conjunct2, THEN conjunct1, rule_format, of 21 0]
    by (simp add: toy_product_facts toy_defaults toy_blur_half toy_halves toy_astype toy_blends
        drop_alpha_def shift_down_def)
  ultimately show ?thesis
    using o so rounds_id toy_defaults(1,2) by (simp add: default_config_def)
qed

end
